theory Spec2Isabelle
  imports Complex_Main
begin

section \<open>Geometric SMOTE: the sampler, the batch generator and the resampling pass\<close>

text \<open>
  A shallow embedding of \<^verbatim>\<open>src/imbtools/algorithms/geometric_smote.py\<close>.

  Numbers. numpy computes with IEEE doubles. The sampler is embedded twice.
  \<open>make_geometric_sample\<close> computes with real numbers, every operation exact; the batch
  generator and the resampling pass call it. \<open>make_geometric_sample_fl\<close> is the same function
  with the floating-point operations as parameters, and \<open>ieee_arith\<close> instantiates them with
  rounding to the nearest double; the ball bound of the sampler is stated over it. The one
  non-finite value the sampler itself can create is kept in both: dividing the drawn vector
  by its norm is \<^verbatim>\<open>0.0 / 0.0\<close> in every component when the draw is zero, which numpy
  evaluates to \<^verbatim>\<open>nan\<close> (with a warning, not an exception), and \<^verbatim>\<open>nan\<close> then survives every
  multiplication and addition. Input matrices hold finite numbers (the estimator's \<^verbatim>\<open>fit\<close>
  validates them), so they are typed over \<open>real\<close>; what the sampler returns is typed over
  \<open>fnum\<close>.

  Arrays. A 2-D array is the list of its rows. A numpy array is rectangular; the model never
  relies on it except where a theorem says so. A feature matrix is a numpy array or a scipy
  sparse matrix, and the tag is kept because the source branches on it.
\<close>

subsection \<open>Data\<close>

datatype py_error =
    ValueError string
  | IndexError
  | ZeroDivisionError
  | AttributeError
  | UnboundLocalError

datatype fnum = Fin real | NaN

datatype 'a matrix = Ndarray "'a list list" | Spmatrix "'a list list"

datatype 'a row = NdRow "'a list" | SpRow "'a list"

text \<open>
  The constructor argument \<^verbatim>\<open>random_state\<close>: an int seed, or \<^verbatim>\<open>None\<close> / a
  \<^verbatim>\<open>RandomState\<close> instance. In the last two cases \<^verbatim>\<open>check_random_state\<close> hands back one
  generator object that lives on between calls (numpy's global generator, or the instance);
  the model keeps that object's state in the \<open>generator\<close> field of the program state.
\<close>

datatype rs_spec = RS_Seed nat | RS_Persistent

record config =
  self_kind :: string
  self_k_neighbors :: nat
  self_random_state :: rs_spec

text \<open>
  What the source calls but does not define: numpy's generator methods, the nearest-neighbour
  estimator of scikit-learn, scipy's arithmetic on sparse operands, and the helper
  \<^verbatim>\<open>check_random_states\<close> of \<^verbatim>\<open>imbtools.utils\<close>. They are parameters of the model.
  \<^item> \<open>rs_normal n g\<close>: \<^verbatim>\<open>random_state.normal(size=n)\<close> on a generator in state \<open>g\<close>;
    the drawn array and the generator's next state.
  \<^item> \<open>rs_uniform g\<close>: \<^verbatim>\<open>random_state.uniform(size=1)\<close>.
  \<^item> \<open>rs_randint high n g\<close>: \<^verbatim>\<open>random_state.randint(low=0, high=high, size=n)\<close> for
    \<open>high > 0\<close>.
  \<^item> \<open>seed_state s\<close>: the state of \<^verbatim>\<open>RandomState(s)\<close>.
  \<^item> \<open>sub_states g n\<close>: \<^verbatim>\<open>check_random_states(random_state, n)\<close>; the specification asks
    for one independent sub-generator per draw, derived from the generator passed in.
  \<^item> \<open>kneighbors k F Q\<close>: an estimator with \<^verbatim>\<open>n_neighbors = k\<close>, fitted on \<open>F\<close>, queried
    with \<^verbatim>\<open>kneighbors(Q)[0]\<close>: the distance array, or the exception raised.
  \<^item> \<open>sp_size c\<close>: \<^verbatim>\<open>center.size\<close> of a sparse row (its number of stored entries).
  \<^item> \<open>sp_add c w\<close>: what storing \<^verbatim>\<open>center + w\<close> into a row of the batch gives for a
    sparse \<^verbatim>\<open>center\<close> and a dense \<open>w\<close>.
  \<^item> \<open>np_vstack_sp A B\<close>: \<^verbatim>\<open>np.vstack((A, B))\<close> for a sparse \<open>A\<close> and a dense \<open>B\<close>.
  \<^item> \<open>sparse_vstack A B\<close>: \<^verbatim>\<open>sparse.vstack([A, B])\<close>.
\<close>

record 'g env =
  rs_normal :: "nat \<Rightarrow> 'g \<Rightarrow> real list \<times> 'g"
  rs_uniform :: "'g \<Rightarrow> real \<times> 'g"
  rs_randint :: "nat \<Rightarrow> nat \<Rightarrow> 'g \<Rightarrow> nat list \<times> 'g"
  seed_state :: "nat \<Rightarrow> 'g"
  sub_states :: "'g \<Rightarrow> nat \<Rightarrow> 'g list \<times> 'g"
  kneighbors :: "nat \<Rightarrow> real matrix \<Rightarrow> real matrix \<Rightarrow> py_error + real list list"
  sp_size :: "real list \<Rightarrow> nat"
  sp_add :: "real list \<Rightarrow> fnum list \<Rightarrow> py_error + fnum list"
  np_vstack_sp :: "fnum list list \<Rightarrow> fnum list list \<Rightarrow> py_error + fnum matrix"
  sparse_vstack :: "fnum matrix \<Rightarrow> fnum matrix \<Rightarrow> py_error + fnum matrix"

text \<open>
  The program state: the persistent generator, and the log of every nearest-neighbour fit
  (the estimator's \<^verbatim>\<open>n_neighbors\<close> and the matrix it was fitted on), oldest first.
\<close>

record 'g state =
  generator :: 'g
  fits :: "(nat \<times> real matrix) list"

subsection \<open>Float and array primitives\<close>

fun fmul :: "fnum \<Rightarrow> fnum \<Rightarrow> fnum" where
  "fmul (Fin a) (Fin b) = Fin (a * b)"
| "fmul _ _ = NaN"

fun fadd :: "fnum \<Rightarrow> fnum \<Rightarrow> fnum" where
  "fadd (Fin a) (Fin b) = Fin (a + b)"
| "fadd _ _ = NaN"

definition norm2 :: "real list \<Rightarrow> real" where
  "norm2 xs = sqrt (sum_list (map (\<lambda>x. x * x) xs))"

definition vsub :: "real list \<Rightarrow> real list \<Rightarrow> real list" where
  "vsub xs ys = map2 (\<lambda>x y. x - y) xs ys"

definition rows_of :: "'a matrix \<Rightarrow> 'a list list" where
  "rows_of M = (case M of Ndarray rs \<Rightarrow> rs | Spmatrix rs \<Rightarrow> rs)"

definition issparse :: "'a matrix \<Rightarrow> bool" where
  "issparse M = (case M of Ndarray _ \<Rightarrow> False | Spmatrix _ \<Rightarrow> True)"

definition shape0 :: "'a matrix \<Rightarrow> nat" where
  "shape0 M = length (rows_of M)"

definition shape1 :: "'a list list \<Rightarrow> nat" where
  "shape1 rs = (case rs of [] \<Rightarrow> 0 | r # _ \<Rightarrow> length r)"

definition getrow :: "'a matrix \<Rightarrow> nat \<Rightarrow> py_error + 'a row" where
  "getrow M i =
     (case M of
        Ndarray rs \<Rightarrow> if i < length rs then Inr (NdRow (rs ! i)) else Inl IndexError
      | Spmatrix rs \<Rightarrow> if i < length rs then Inr (SpRow (rs ! i)) else Inl IndexError)"

definition getitem2 :: "'a list list \<Rightarrow> nat \<Rightarrow> nat \<Rightarrow> py_error + 'a" where
  "getitem2 rs i j =
     (if i < length rs \<and> j < length (rs ! i) then Inr (rs ! i ! j) else Inl IndexError)"

definition zeros :: "nat \<Rightarrow> nat \<Rightarrow> fnum list list" where
  "zeros n d = replicate n (replicate d (Fin 0))"

definition row_size :: "'g env \<Rightarrow> real row \<Rightarrow> nat" where
  "row_size E center = (case center of NdRow c \<Rightarrow> length c | SpRow c \<Rightarrow> sp_size E c)"

definition row_add :: "'g env \<Rightarrow> real row \<Rightarrow> fnum list \<Rightarrow> py_error + fnum list" where
  "row_add E center w =
     (case center of
        NdRow c \<Rightarrow> Inr (map2 fadd (map Fin c) w)
      | SpRow c \<Rightarrow> sp_add E c w)"

subsection \<open>\<^verbatim>\<open>_make_geometric_sample\<close>\<close>

text \<open>
  Lines 20-25. \<open>random_state\<close> is the generator \<^verbatim>\<open>check_random_state\<close> returned. The
  uniform draw is made before \<^verbatim>\<open>1 / center.size\<close> is evaluated, and that division is
  Python's: it raises for an empty \<^verbatim>\<open>center\<close>. The arithmetic is numpy's on arrays of
  equal length, which is what a generator gives that returns \<^verbatim>\<open>size\<close> values (see
  \<open>generator_ok\<close> below); a uniform draw is not negative, so the power is the real one.
\<close>

definition make_geometric_sample ::
  "'g env \<Rightarrow> real row \<Rightarrow> real \<Rightarrow> 'g \<Rightarrow> py_error + fnum list" where
  "make_geometric_sample E center radius random_state =
     (let size = row_size E center;
          (normal_samples, g1) = rs_normal E size random_state;
          nrm = norm2 normal_samples;
          on_sphere = (if nrm = 0 then map (\<lambda>z. NaN) normal_samples
                       else map (\<lambda>z. Fin (z / nrm)) normal_samples);
          (u, g2) = rs_uniform E g1
      in if size = 0 then Inl ZeroDivisionError
         else
           let in_ball = map (fmul (Fin (u powr (1 / real size)))) on_sphere
           in row_add E center (map (fmul (Fin radius)) in_ball))"

subsection \<open>The sampler in rounded arithmetic\<close>

text \<open>
  Lines 20-25 again, with the floating-point operations as parameters: \<open>fl_norm\<close> is
  \<^verbatim>\<open>norm(normal_samples)\<close>, \<open>fl_div\<close> the division (of the draw by its norm, and Python's
  \<^verbatim>\<open>1 / center.size\<close>), \<open>fl_pow\<close> is \<^verbatim>\<open>**\<close>, \<open>fl_mul\<close> the two products and \<open>fl_add\<close> the
  final sum, each applied component by component and in the order of the source. In this
  version \<open>NaN\<close> stands for any non-finite double (a nonzero draw divided by a norm that
  underflowed to zero is \<^verbatim>\<open>inf\<close>, not \<^verbatim>\<open>nan\<close>); a non-finite operand makes every later
  product and sum non-finite.
\<close>

record fl_arith =
  fl_add :: "real \<Rightarrow> real \<Rightarrow> real"
  fl_mul :: "real \<Rightarrow> real \<Rightarrow> real"
  fl_div :: "real \<Rightarrow> real \<Rightarrow> real"
  fl_pow :: "real \<Rightarrow> real \<Rightarrow> real"
  fl_norm :: "real list \<Rightarrow> real"

fun flift :: "(real \<Rightarrow> real \<Rightarrow> real) \<Rightarrow> fnum \<Rightarrow> fnum \<Rightarrow> fnum" where
  "flift f (Fin a) (Fin b) = Fin (f a b)"
| "flift f _ _ = NaN"

definition row_add_fl :: "fl_arith \<Rightarrow> 'g env \<Rightarrow> real row \<Rightarrow> fnum list \<Rightarrow> py_error + fnum list" where
  "row_add_fl F E center w =
     (case center of
        NdRow c \<Rightarrow> Inr (map2 (flift (fl_add F)) (map Fin c) w)
      | SpRow c \<Rightarrow> sp_add E c w)"

definition make_geometric_sample_fl ::
  "fl_arith \<Rightarrow> 'g env \<Rightarrow> real row \<Rightarrow> real \<Rightarrow> 'g \<Rightarrow> py_error + fnum list" where
  "make_geometric_sample_fl F E center radius random_state =
     (let size = row_size E center;
          (normal_samples, g1) = rs_normal E size random_state;
          nrm = fl_norm F normal_samples;
          on_sphere = (if nrm = 0 then map (\<lambda>z. NaN) normal_samples
                       else map (\<lambda>z. Fin (fl_div F z nrm)) normal_samples);
          (u, g2) = rs_uniform E g1
      in if size = 0 then Inl ZeroDivisionError
         else
           let in_ball = map (flift (fl_mul F) (Fin (fl_pow F u (fl_div F 1 (real size)))))
                           on_sphere
           in row_add_fl F E center (map (flift (fl_mul F) (Fin radius)) in_ball))"

text \<open>With exact operations this is \<open>make_geometric_sample\<close>.\<close>

definition exact_arith :: fl_arith where
  "exact_arith =
     \<lparr>fl_add = (\<lambda>a b. a + b), fl_mul = (\<lambda>a b. a * b), fl_div = (\<lambda>a b. a / b),
      fl_pow = (\<lambda>a b. a powr b), fl_norm = norm2\<rparr>"

text \<open>
  IEEE binary64, round to nearest, ties to even: a nonzero \<open>x\<close> with
  \<open>2\<^sup>e \<le> \<bar>x\<bar> < 2\<^sup>e\<^sup>+\<^sup>1\<close> is rounded to the nearest multiple of \<open>2\<^sup>e\<^sup>-\<^sup>5\<^sup>2\<close>, and below the normal
  range (\<open>e < -1022\<close>) to the nearest multiple of \<open>2\<^sup>-\<^sup>1\<^sup>0\<^sup>7\<^sup>4\<close>. Overflow is not modelled: the
  rounded value is the double's as long as it is at most \<open>double_max\<close>, the largest double.
\<close>

definition rne :: "real \<Rightarrow> int" where
  "rne y =
     (let f = \<lfloor>y\<rfloor>; r = y - of_int f
      in if r < 1 / 2 then f else if 1 / 2 < r then f + 1 else if even f then f else f + 1)"

definition round_double :: "real \<Rightarrow> real" where
  "round_double x =
     (if x = 0 then 0
      else let e = max \<lfloor>log 2 \<bar>x\<bar>\<rfloor> (- 1022); q = 2 powr (of_int e - 52)
           in q * of_int (rne (x / q)))"

definition double_max :: real where
  "double_max = (2 ^ 53 - 1) * 2 ^ 971"

text \<open>
  numpy's operations on doubles. The norm is the square root of the sum of the squares,
  accumulated from the left (numpy hands the sum to BLAS, which does not fix the order; for
  one component there is nothing to sum); the power is taken to be correctly rounded, which
  it is when the exponent is 1.
\<close>

definition ieee_arith :: fl_arith where
  "ieee_arith =
     \<lparr>fl_add = (\<lambda>a b. round_double (a + b)),
      fl_mul = (\<lambda>a b. round_double (a * b)),
      fl_div = (\<lambda>a b. round_double (a / b)),
      fl_pow = (\<lambda>a b. round_double (a powr b)),
      fl_norm = (\<lambda>zs. round_double
                   (sqrt (foldl (\<lambda>s z. round_double (s + round_double (z * z))) 0 zs)))\<rparr>"

text \<open>
  What the ball bound needs from the arithmetic: every sum, product and quotient whose exact
  value is at most \<open>M\<close> in absolute value is returned with an error of at most \<open>eps\<close> times
  that value plus \<open>eta\<close>. Doubles keep this with \<open>eps = 2\<^sup>-\<^sup>5\<^sup>3\<close>, \<open>eta = 2\<^sup>-\<^sup>1\<^sup>0\<^sup>7\<^sup>5\<close> and \<open>M\<close> the
  largest double.
\<close>

definition fl_ok :: "fl_arith \<Rightarrow> real \<Rightarrow> real \<Rightarrow> real \<Rightarrow> bool" where
  "fl_ok F eps eta M \<longleftrightarrow>
     0 \<le> eps \<and> 0 \<le> eta \<and>
     (\<forall>a b. \<bar>a + b\<bar> \<le> M \<longrightarrow> \<bar>fl_add F a b - (a + b)\<bar> \<le> eps * \<bar>a + b\<bar> + eta) \<and>
     (\<forall>a b. \<bar>a * b\<bar> \<le> M \<longrightarrow> \<bar>fl_mul F a b - a * b\<bar> \<le> eps * \<bar>a * b\<bar> + eta) \<and>
     (\<forall>a b. b \<noteq> 0 \<and> \<bar>a / b\<bar> \<le> M \<longrightarrow> \<bar>fl_div F a b - a / b\<bar> \<le> eps * \<bar>a / b\<bar> + eta)"

text \<open>
  The radius the rounded sample stays within, for a center of \<open>d\<close> coordinates and of norm
  \<open>center_norm\<close>, when the computed norm of the draw is at least \<open>1 - gamma\<close> times its
  norm: \<open>D\<close>, \<open>B\<close> and \<open>W\<close> bound the norms of the computed direction, point of the unit ball
  and offset. \<open>rounded_reach\<close> is the largest absolute value an exact intermediate result
  can take (the same bounds for one coordinate).
\<close>

definition rounded_radius :: "real \<Rightarrow> real \<Rightarrow> real \<Rightarrow> nat \<Rightarrow> real \<Rightarrow> real \<Rightarrow> real" where
  "rounded_radius eps eta gamma d radius center_norm =
     (let D = (1 + eps) / (1 - gamma) + eta * sqrt (real d);
          B = (1 + eps) * D + eta * sqrt (real d);
          W = (1 + eps) * radius * B + eta * sqrt (real d)
      in (1 + eps) * W + eps * center_norm + eta * sqrt (real d))"

definition rounded_reach :: "real \<Rightarrow> real \<Rightarrow> real \<Rightarrow> real \<Rightarrow> real \<Rightarrow> real" where
  "rounded_reach eps eta gamma radius center_norm =
     (let D = (1 + eps) / (1 - gamma) + eta;
          B = (1 + eps) * D + eta;
          W = (1 + eps) * radius * B + eta
      in max D (max (radius * B) (center_norm + W)))"

subsection \<open>\<^verbatim>\<open>_make_geometric_samples\<close>\<close>

text \<open>
  Lines 57-58: the drawn flat indices are decoded with \<^verbatim>\<open>np.floor_divide\<close> and
  \<^verbatim>\<open>np.mod\<close> by \<^verbatim>\<open>radii.shape[1]\<close>.
\<close>

definition decode_rows :: "nat \<Rightarrow> nat list \<Rightarrow> nat list" where
  "decode_rows k samples_indices = map (\<lambda>i. i div k) samples_indices"

definition decode_cols :: "nat \<Rightarrow> nat list \<Rightarrow> nat list" where
  "decode_cols k samples_indices = map (\<lambda>i. i mod k) samples_indices"

text \<open>
  Lines 61-62: the loop over \<^verbatim>\<open>enumerate(zip(rows, cols, random_states))\<close>. Each pass
  reads \<^verbatim>\<open>X[row]\<close>, then \<^verbatim>\<open>radii[row, col]\<close>, calls the sampler and stores the result in
  row \<^verbatim>\<open>row_ind\<close> of \<^verbatim>\<open>X_new\<close>; the first exception ends the loop.
\<close>

fun fill_rows ::
  "'g env \<Rightarrow> real matrix \<Rightarrow> real list list \<Rightarrow> (nat \<times> nat \<times> nat \<times> 'g) list \<Rightarrow>
   fnum list list \<Rightarrow> py_error + fnum list list" where
  "fill_rows E X radii [] X_new = Inr X_new"
| "fill_rows E X radii ((row_ind, row, col, random_state) # rest) X_new =
     (case getrow X row of
        Inl e \<Rightarrow> Inl e
      | Inr center \<Rightarrow>
          (case getitem2 radii row col of
             Inl e \<Rightarrow> Inl e
           | Inr radius \<Rightarrow>
               (case make_geometric_sample E center radius random_state of
                  Inl e \<Rightarrow> Inl e
                | Inr s \<Rightarrow> fill_rows E X radii rest (X_new[row_ind := s]))))"

text \<open>
  Lines 55-65. The result is paired with the state in which the generator passed in is
  left. \<^verbatim>\<open>randint\<close> raises when \<^verbatim>\<open>high\<close> is 0, that is when \<^verbatim>\<open>radii\<close> has no entry.
  \<^verbatim>\<open>X_new\<close> is created by \<^verbatim>\<open>np.zeros\<close>, so it is a numpy array whatever \<^verbatim>\<open>X\<close> is.
\<close>

definition make_geometric_samples ::
  "'g env \<Rightarrow> real matrix \<Rightarrow> 'l \<Rightarrow> real list list \<Rightarrow> nat \<Rightarrow> 'g \<Rightarrow>
   (py_error + fnum matrix \<times> 'l list) \<times> 'g" where
  "make_geometric_samples E X class_label radii n_samples random_state =
     (let (random_states, g1) = sub_states E random_state n_samples;
          high = length (concat radii)
      in if high = 0 then (Inl (ValueError ''low >= high''), g1)
         else
           let (samples_indices, g2) = rs_randint E high n_samples g1;
               rows = decode_rows (shape1 radii) samples_indices;
               cols = decode_cols (shape1 radii) samples_indices;
               X_new = zeros n_samples (shape1 (rows_of X))
           in (case fill_rows E X radii
                       (enumerate 0 (zip rows (zip cols random_states))) X_new of
                 Inl e \<Rightarrow> (Inl e, g2)
               | Inr X_filled \<Rightarrow>
                   (Inr (Ndarray X_filled, replicate (length samples_indices) class_label),
                    g2)))"

subsection \<open>\<^verbatim>\<open>GeometricSMOTE\<close>\<close>

definition GEOMETRIC_SMOTE_KIND :: "string list" where
  "GEOMETRIC_SMOTE_KIND = [''regular'', ''majority'', ''minority'']"

definition unknown_kind_msg :: "string \<Rightarrow> string" where
  "unknown_kind_msg k =
     ''Unknown kind for Geometric SMOTE algorithm. Choices are '' @
     ''('regular', 'majority', 'minority'). Got '' @ k @ '' instead.''"

text \<open>
  Lines 125-138. The two estimators are represented by their \<^verbatim>\<open>n_neighbors\<close>:
  \<^verbatim>\<open>nn_minority_\<close> gets \<^verbatim>\<open>k_neighbors + 1\<close>, \<^verbatim>\<open>nn_majority_\<close> gets 1; an attribute
  that is not set is \<open>None\<close>.
\<close>

definition validate_estimator :: "config \<Rightarrow> py_error + nat option \<times> nat option" where
  "validate_estimator self =
     (if self_kind self \<notin> set GEOMETRIC_SMOTE_KIND
      then Inl (ValueError (unknown_kind_msg (self_kind self)))
      else Inr
        (if self_kind self \<in> {''minority'', ''regular''}
         then Some (self_k_neighbors self + 1) else None,
         if self_kind self \<in> {''majority'', ''regular''}
         then Some 1 else None))"

definition flatnonzero :: "bool list \<Rightarrow> nat list" where
  "flatnonzero bs = filter (\<lambda>i. bs ! i) [0..<length bs]"

definition safe_indexing :: "'a matrix \<Rightarrow> nat list \<Rightarrow> py_error + 'a matrix" where
  "safe_indexing X indices =
     (if \<forall>i \<in> set indices. i < shape0 X
      then Inr (case X of
                  Ndarray rs \<Rightarrow> Ndarray (map (\<lambda>i. rs ! i) indices)
                | Spmatrix rs \<Rightarrow> Spmatrix (map (\<lambda>i. rs ! i) indices))
      else Inl IndexError)"

definition check_random_state :: "'g env \<Rightarrow> rs_spec \<Rightarrow> 'g state \<Rightarrow> 'g" where
  "check_random_state E rs st =
     (case rs of RS_Seed seed \<Rightarrow> seed_state E seed | RS_Persistent \<Rightarrow> generator st)"

definition put_generator :: "rs_spec \<Rightarrow> 'g \<Rightarrow> 'g state \<Rightarrow> 'g state" where
  "put_generator rs g st =
     (case rs of RS_Seed seed \<Rightarrow> st | RS_Persistent \<Rightarrow> st\<lparr>generator := g\<rparr>)"

text \<open>
  Lines 174-177 and 180-183, which differ only in the estimator and the matrix it is fitted
  on: fit, query the class's own points, coerce \<^verbatim>\<open>self.random_state\<close>, generate the batch.
  A generator built from a seed is dropped afterwards; the persistent one keeps its new state.
\<close>

definition radius_pass ::
  "'g env \<Rightarrow> config \<Rightarrow> nat option \<Rightarrow> real matrix \<Rightarrow> real matrix \<Rightarrow> 'l \<Rightarrow> nat \<Rightarrow> 'g state \<Rightarrow>
   (py_error + fnum matrix \<times> 'l list) \<times> 'g state" where
  "radius_pass E self nn X_fit X_positive class_label n_samples st =
     (case nn of
        None \<Rightarrow> (Inl AttributeError, st)
      | Some k \<Rightarrow>
          let st1 = st\<lparr>fits := fits st @ [(k, X_fit)]\<rparr>
          in (case kneighbors E k X_fit X_positive of
                Inl e \<Rightarrow> (Inl e, st1)
              | Inr radii \<Rightarrow>
                  let random_state = check_random_state E (self_random_state self) st1;
                      (res, g) = make_geometric_samples E X_positive class_label radii
                                   n_samples random_state
                  in (res, put_generator (self_random_state self) g st1)))"

text \<open>
  Lines 170-183, the body of the loop for one class up to the point where \<^verbatim>\<open>X_new, y_new\<close>
  are used. The local pair is \<open>None\<close> while unassigned; the second \<^verbatim>\<open>if\<close> assigns the same
  two names as the first.
\<close>

definition class_batch ::
  "'g env \<Rightarrow> config \<Rightarrow> nat option \<times> nat option \<Rightarrow> real matrix \<Rightarrow> 'l list \<Rightarrow> 'l \<Rightarrow> nat \<Rightarrow>
   'g state \<Rightarrow> (py_error + fnum matrix \<times> 'l list) \<times> 'g state" where
  "class_batch E self nns X y class_label n_samples st =
     (case safe_indexing X (flatnonzero (map (\<lambda>l. l = class_label) y)) of
        Inl e \<Rightarrow> (Inl e, st)
      | Inr X_positive \<Rightarrow>
     (case safe_indexing X (flatnonzero (map (\<lambda>l. l \<noteq> class_label) y)) of
        Inl e \<Rightarrow> (Inl e, st)
      | Inr X_negative \<Rightarrow>
     (case (if self_kind self \<in> {''minority'', ''regular''}
            then (case radius_pass E self (fst nns) X_positive X_positive class_label
                         n_samples st of
                    (Inl e, st1) \<Rightarrow> (Inl e, st1)
                  | (Inr new, st1) \<Rightarrow> (Inr (Some new), st1))
            else (Inr None, st)) of
        (Inl e, st1) \<Rightarrow> (Inl e, st1)
      | (Inr new1, st1) \<Rightarrow>
     (case (if self_kind self \<in> {''majority'', ''regular''}
            then (case radius_pass E self (snd nns) X_negative X_positive class_label
                         n_samples st1 of
                    (Inl e, st2) \<Rightarrow> (Inl e, st2)
                  | (Inr new, st2) \<Rightarrow> (Inr (Some new), st2))
            else (Inr new1, st1)) of
        (Inl e, st2) \<Rightarrow> (Inl e, st2)
      | (Inr None, st2) \<Rightarrow> (Inl UnboundLocalError, st2)
      | (Inr (Some new2), st2) \<Rightarrow> (Inr new2, st2)))))"

text \<open>
  Lines 185-188. \<^verbatim>\<open>np.vstack\<close> of two numpy arrays puts the rows of the second after the
  rows of the first.
\<close>

definition stack_batch ::
  "'g env \<Rightarrow> fnum matrix \<Rightarrow> fnum matrix \<Rightarrow> py_error + fnum matrix" where
  "stack_batch E X_resampled X_new =
     (if issparse X_new then sparse_vstack E X_resampled X_new
      else (case X_resampled of
              Ndarray rs \<Rightarrow> Inr (Ndarray (rs @ rows_of X_new))
            | Spmatrix rs \<Rightarrow> np_vstack_sp E rs (rows_of X_new)))"

text \<open>Lines 165-190: the loop over \<^verbatim>\<open>self.ratio_.items()\<close>, in the dict's order.\<close>

fun sample_loop ::
  "'g env \<Rightarrow> config \<Rightarrow> nat option \<times> nat option \<Rightarrow> real matrix \<Rightarrow> 'l list \<Rightarrow> ('l \<times> nat) list \<Rightarrow>
   fnum matrix \<Rightarrow> 'l list \<Rightarrow> 'g state \<Rightarrow> (py_error + fnum matrix \<times> 'l list) \<times> 'g state" where
  "sample_loop E self nns X y [] X_resampled y_resampled st =
     (Inr (X_resampled, y_resampled), st)"
| "sample_loop E self nns X y ((class_label, n_samples) # items) X_resampled y_resampled st =
     (if n_samples = 0 then sample_loop E self nns X y items X_resampled y_resampled st
      else
        (case class_batch E self nns X y class_label n_samples st of
           (Inl e, st1) \<Rightarrow> (Inl e, st1)
         | (Inr (X_new, y_new), st1) \<Rightarrow>
             (case stack_batch E X_resampled X_new of
                Inl e \<Rightarrow> (Inl e, st1)
              | Inr X_stacked \<Rightarrow>
                  sample_loop E self nns X y items X_stacked (y_resampled @ y_new) st1)))"

definition copy_matrix :: "real matrix \<Rightarrow> fnum matrix" where
  "copy_matrix X =
     (case X of
        Ndarray rs \<Rightarrow> Ndarray (map (map Fin) rs)
      | Spmatrix rs \<Rightarrow> Spmatrix (map (map Fin) rs))"

text \<open>
  Lines 160-192, \<^verbatim>\<open>_sample\<close>. \<open>ratio\<close> is \<^verbatim>\<open>self.ratio_\<close>, the per-class counts that
  \<^verbatim>\<open>fit\<close> left on the estimator, as the list of the dict's items.
\<close>

definition sample ::
  "'g env \<Rightarrow> config \<Rightarrow> ('l \<times> nat) list \<Rightarrow> real matrix \<Rightarrow> 'l list \<Rightarrow> 'g state \<Rightarrow>
   (py_error + fnum matrix \<times> 'l list) \<times> 'g state" where
  "sample E self ratio X y st =
     (case validate_estimator self of
        Inl e \<Rightarrow> (Inl e, st)
      | Inr nns \<Rightarrow> sample_loop E self nns X y ratio (copy_matrix X) y st)"

subsection \<open>Contracts of the parameters, and concrete instances\<close>

text \<open>
  numpy's contract for a generator: \<^verbatim>\<open>normal(size=n)\<close> has \<open>n\<close> entries, \<^verbatim>\<open>uniform\<close>
  draws from \<open>[0, 1)\<close>, \<^verbatim>\<open>randint(0, high, n)\<close> has \<open>n\<close> entries below \<open>high\<close>.
\<close>

definition generator_ok :: "'g env \<Rightarrow> bool" where
  "generator_ok E \<longleftrightarrow>
     (\<forall>n g. length (fst (rs_normal E n g)) = n) \<and>
     (\<forall>g. 0 \<le> fst (rs_uniform E g) \<and> fst (rs_uniform E g) < 1) \<and>
     (\<forall>h n g. 0 < h \<longrightarrow> length (fst (rs_randint E h n g)) = n \<and>
         (\<forall>i \<in> set (fst (rs_randint E h n g)). i < h))"

text \<open>
  Modelled from the spec: \<^verbatim>\<open>check_random_states\<close> (of \<^verbatim>\<open>imbtools.utils\<close>, which is not
  among the sources) pre-derives one sub-generator per draw, so
  \<^verbatim>\<open>check_random_states(random_state, n)\<close> returns \<open>n\<close> of them.
\<close>

definition sub_states_ok :: "'g env \<Rightarrow> bool" where
  "sub_states_ok E \<longleftrightarrow> (\<forall>g n. length (fst (sub_states E g n)) = n)"

text \<open>
  A small generator whose state is a counter: every normal draw is 1, the uniform draw is
  1/4, the integers run upwards from the counter, and every neighbour distance is 1.
\<close>

definition counter_env :: "nat env" where
  "counter_env =
     \<lparr> rs_normal = (\<lambda>n g. (replicate n 1, g + n)),
       rs_uniform = (\<lambda>g. (1 / 4, g + 1)),
       rs_randint = (\<lambda>h n g. (map (\<lambda>i. (g + i) mod h) [0..<n], g + n)),
       seed_state = (\<lambda>s. s),
       sub_states = (\<lambda>g n. (map (\<lambda>i. g + i) [0..<n], g + n)),
       kneighbors = (\<lambda>k F Q. Inr (map (\<lambda>r. replicate k 1) (rows_of Q))),
       sp_size = length,
       sp_add = (\<lambda>c w. Inl (ValueError ''sparse'')),
       np_vstack_sp = (\<lambda>A B. Inl (ValueError ''sparse'')),
       sparse_vstack = (\<lambda>A B. Inl (ValueError ''sparse'')) \<rparr>"

text \<open>The same generator, except that every normal draw is 0.\<close>

definition zero_draw_env :: "nat env" where
  "zero_draw_env = counter_env\<lparr>rs_normal := (\<lambda>n g. (replicate n 0, g + n))\<rparr>"

text \<open>The same generator, except that the uniform draw is 3/4.\<close>

definition three_quarter_env :: "nat env" where
  "three_quarter_env = counter_env\<lparr>rs_uniform := (\<lambda>g. (3 / 4, g + 1))\<rparr>"

text \<open>
  What one call of the batch generator draws: the flat indices, and the sub-generator of each
  draw.
\<close>

definition drawn_indices :: "'g env \<Rightarrow> real list list \<Rightarrow> nat \<Rightarrow> 'g \<Rightarrow> nat list" where
  "drawn_indices E radii n_samples g =
     fst (rs_randint E (length (concat radii)) n_samples (snd (sub_states E g n_samples)))"

definition draw_states :: "'g env \<Rightarrow> nat \<Rightarrow> 'g \<Rightarrow> 'g list" where
  "draw_states E n_samples g = fst (sub_states E g n_samples)"

text \<open>Three one-dimensional points, and a radius matrix with two columns.\<close>

definition demo_X :: "real matrix" where
  "demo_X = Ndarray [[0], [10], [20]]"

definition demo_radii :: "real list list" where
  "demo_radii = [[1, 2], [3, 4], [5, 6]]"

text \<open>
  The labels the pass appends: for each class of \<^verbatim>\<open>self.ratio_\<close>, in the dict's order, as
  many copies of its label as its count.
\<close>

definition synthetic_labels :: "('l \<times> nat) list \<Rightarrow> 'l list" where
  "synthetic_labels ratio = concat (map (\<lambda>(class_label, n_samples). replicate n_samples class_label) ratio)"

text \<open>Labels for the three points, an estimator with an int seed, and a start state.\<close>

definition demo_y :: "int list" where
  "demo_y = [1, 0, 0]"

definition demo_self :: "string \<Rightarrow> config" where
  "demo_self k = \<lparr>self_kind = k, self_k_neighbors = 1, self_random_state = RS_Seed 0\<rparr>"

definition demo_state :: "nat state" where
  "demo_state = \<lparr>generator = 7, fits = []\<rparr>"

text \<open>
  The counter generator again, where adding a dense vector to a sparse row succeeds and gives
  the sum.
\<close>

definition sparse_demo_env :: "nat env" where
  "sparse_demo_env = counter_env\<lparr>sp_add := (\<lambda>c w. Inr (map2 fadd (map Fin c) w))\<rparr>"

text \<open>
  The counter generator with the uniform draw 0, where adding a dense vector to a sparse row
  gives the sum (scipy returns it as a dense row), and where \<^verbatim>\<open>np.vstack\<close> of a sparse
  matrix and a numpy array raises: numpy wraps the sparse operand as a 1-by-1 array holding
  the matrix object, so the column counts differ as soon as the batch has two columns.
\<close>

definition csr_env :: "nat env" where
  "csr_env =
     counter_env\<lparr>
       rs_uniform := (\<lambda>g. (0, g + 1)),
       sp_add := (\<lambda>c w. Inr (map2 fadd (map Fin c) w)),
       np_vstack_sp := (\<lambda>A B. Inl (ValueError
         ''all the input array dimensions except for the concatenation axis must match exactly''))\<rparr>"

text \<open>A CSR matrix with three rows, two columns and no zero entry.\<close>

definition csr_X :: "real matrix" where
  "csr_X = Spmatrix [[1, 2], [3, 4], [5, 6]]"

text \<open>
  What the loop of lines 165-190 generated: the batch and the labels of every class with a
  nonzero count, in the dict's order, each from the program state the class before left.
\<close>

fun class_batches ::
  "'g env \<Rightarrow> config \<Rightarrow> nat option \<times> nat option \<Rightarrow> real matrix \<Rightarrow> 'l list \<Rightarrow> ('l \<times> nat) list \<Rightarrow>
   'g state \<Rightarrow> (fnum list list \<times> 'l list) list" where
  "class_batches E self nns X y [] st = []"
| "class_batches E self nns X y ((class_label, n_samples) # items) st =
     (if n_samples = 0 then class_batches E self nns X y items st
      else
        (case class_batch E self nns X y class_label n_samples st of
           (Inl e, st1) \<Rightarrow> []
         | (Inr (X_new, y_new), st1) \<Rightarrow>
             (rows_of X_new, y_new) # class_batches E self nns X y items st1))"

section \<open>The geometric sampler\<close>

subsection \<open>Norms and the dense pipeline\<close>

lemma sumsq_nonneg: "0 \<le> sum_list (map (\<lambda>x. x * x) xs)" for xs :: "real list"
  by (induction xs) simp_all

lemma norm2_nonneg: "0 \<le> norm2 xs"
  by (simp add: norm2_def sumsq_nonneg)

lemma sumsq_zero_iff:
  "sum_list (map (\<lambda>x. x * x) xs) = 0 \<longleftrightarrow> (\<forall>x \<in> set xs. x = 0)" for xs :: "real list"
proof (induction xs)
  case Nil
  show ?case by simp
next
  case (Cons a xs)
  have "a * a + sum_list (map (\<lambda>x. x * x) xs) = 0 \<longleftrightarrow>
          a * a = 0 \<and> sum_list (map (\<lambda>x. x * x) xs) = 0"
    by (rule add_nonneg_eq_0_iff) (simp_all add: sumsq_nonneg)
  with Cons.IH show ?case by simp
qed

lemma norm2_zero_iff: "norm2 xs = 0 \<longleftrightarrow> (\<forall>x \<in> set xs. x = 0)"
  by (simp add: norm2_def sumsq_zero_iff)

lemma dense_pipeline:
  "map2 fadd (map Fin c)
     (map (fmul (Fin r)) (map (fmul (Fin s)) (map (\<lambda>z. Fin (z / n)) zs))) =
   map Fin (map2 (\<lambda>x y. x + y) c (map (\<lambda>z. (r * (s / n)) * z) zs))"
proof (induction c arbitrary: zs)
  case Nil
  show ?case by simp
next
  case (Cons a c)
  show ?case
  proof (cases zs)
    case Nil
    then show ?thesis by simp
  next
    case (Cons z zs')
    with Cons.IH [of zs'] show ?thesis by simp
  qed
qed

lemma sample_dense_value:
  assumes n: "rs_normal E (length c) g = (zs, g1)" and u: "rs_uniform E g1 = (u, g2)"
      and c: "c \<noteq> []" and z: "norm2 zs \<noteq> 0"
  shows "make_geometric_sample E (NdRow c) radius g =
           Inr (map Fin (map2 (\<lambda>x y. x + y) c
                  (map (\<lambda>z. (radius * (u powr (1 / real (length c)) / norm2 zs)) * z) zs)))"
proof -
  have "make_geometric_sample E (NdRow c) radius g =
          row_add E (NdRow c)
            (map (fmul (Fin radius))
               (map (fmul (Fin (u powr (1 / real (length c)))))
                  (map (\<lambda>z. Fin (z / norm2 zs)) zs)))"
    using n u c z by (simp add: make_geometric_sample_def row_size_def Let_def comp_def)
  also have "\<dots> = Inr (map2 fadd (map Fin c)
            (map (fmul (Fin radius))
               (map (fmul (Fin (u powr (1 / real (length c)))))
                  (map (\<lambda>z. Fin (z / norm2 zs)) zs))))"
    by (simp only: row_add_def row.case)
  finally show ?thesis by (simp only: dense_pipeline)
qed

lemma generator_ok_counter: "generator_ok counter_env"
  by (simp add: generator_ok_def counter_env_def)

lemma generator_ok_zero_draw: "generator_ok zero_draw_env"
  by (simp add: generator_ok_def counter_env_def zero_draw_env_def)

subsection \<open>Rounded arithmetic\<close>

lemma flift_mul_exact: "flift (\<lambda>a b. a * b) = fmul"
proof (intro ext)
  fix x y show "flift (\<lambda>a b. a * b) x y = fmul x y"
    by (cases x; cases y) simp_all
qed

lemma flift_add_exact: "flift (\<lambda>a b. a + b) = fadd"
proof (intro ext)
  fix x y show "flift (\<lambda>a b. a + b) x y = fadd x y"
    by (cases x; cases y) simp_all
qed

lemma exact_arith_is_real_model:
  "make_geometric_sample_fl exact_arith E center radius g =
   make_geometric_sample E center radius g"
  unfolding make_geometric_sample_fl_def make_geometric_sample_def row_add_fl_def row_add_def
    exact_arith_def fl_arith.simps flift_mul_exact flift_add_exact
  by simp

lemma norm2_Cons: "norm2 (x # xs) = sqrt (x * x + norm2 xs * norm2 xs)"
  by (simp add: norm2_def sumsq_nonneg)

lemma norm2_mono:
  assumes "\<forall>x \<in> set xs. \<bar>f x\<bar> \<le> F x"
  shows "norm2 (map f xs) \<le> norm2 (map F xs)"
proof -
  have "sum_list (map (\<lambda>x. x * x) (map f xs)) \<le> sum_list (map (\<lambda>x. x * x) (map F xs))"
    using assms
  proof (induction xs)
    case Nil
    show ?case by simp
  next
    case (Cons a xs)
    from Cons.prems have "\<bar>f a\<bar> \<le> F a" by simp
    then have "\<bar>f a\<bar> * \<bar>f a\<bar> \<le> F a * F a" by (intro mult_mono) simp_all
    then have "f a * f a \<le> F a * F a" by simp
    moreover from Cons have "sum_list (map (\<lambda>x. x * x) (map f xs)) \<le>
        sum_list (map (\<lambda>x. x * x) (map F xs))" by simp
    ultimately show ?case by simp
  qed
  then show ?thesis by (simp add: norm2_def)
qed

lemma norm2_triangle:
  "norm2 (map (\<lambda>x. A x + B x) xs) \<le> norm2 (map A xs) + norm2 (map B xs)"
proof (induction xs)
  case Nil
  show ?case by (simp add: norm2_def)
next
  case (Cons a xs)
  let ?n = "norm2 (map (\<lambda>x. A x + B x) xs)"
  let ?na = "norm2 (map A xs)" and ?nb = "norm2 (map B xs)"
  have "?n * ?n \<le> (?na + ?nb) * (?na + ?nb)"
    using Cons.IH norm2_nonneg [of "map (\<lambda>x. A x + B x) xs"] by (intro mult_mono) simp_all
  then have "norm2 (map (\<lambda>x. A x + B x) (a # xs)) \<le>
        sqrt ((A a + B a)\<^sup>2 + (?na + ?nb)\<^sup>2)"
    by (simp add: norm2_Cons power2_eq_square)
  also have "\<dots> \<le> sqrt ((A a)\<^sup>2 + ?na\<^sup>2) + sqrt ((B a)\<^sup>2 + ?nb\<^sup>2)"
    by (rule real_sqrt_sum_squares_triangle_ineq)
  also have "\<dots> = norm2 (map A (a # xs)) + norm2 (map B (a # xs))"
    by (simp add: norm2_Cons power2_eq_square)
  finally show ?case .
qed

lemma norm2_scale_abs:
  "0 \<le> k \<Longrightarrow> norm2 (map (\<lambda>x. k * \<bar>g x\<bar>) xs) = k * norm2 (map g xs)"
proof -
  assume k: "0 \<le> k"
  have "sum_list (map (\<lambda>x. x * x) (map (\<lambda>x. k * \<bar>g x\<bar>) xs)) =
        (k * k) * sum_list (map (\<lambda>x. x * x) (map g xs))"
    by (induction xs) (simp_all add: algebra_simps)
  then show ?thesis using k by (simp add: norm2_def real_sqrt_mult)
qed

lemma norm2_const: "0 \<le> h \<Longrightarrow> norm2 (map (\<lambda>x. h) xs) = h * sqrt (real (length xs))"
proof -
  assume h: "0 \<le> h"
  have "sum_list (map (\<lambda>x. x * x) (map (\<lambda>x. h) xs)) = (h * h) * real (length xs)"
    by (induction xs) (simp_all add: algebra_simps)
  then show ?thesis using h by (simp add: norm2_def real_sqrt_mult)
qed

lemma norm2_two_terms:
  assumes "0 \<le> k" "0 \<le> m" "\<forall>x \<in> set xs. \<bar>f x\<bar> \<le> k * \<bar>g x\<bar> + m * \<bar>h x\<bar>"
  shows "norm2 (map f xs) \<le> k * norm2 (map g xs) + m * norm2 (map h xs)"
proof -
  have "norm2 (map f xs) \<le> norm2 (map (\<lambda>x. k * \<bar>g x\<bar> + m * \<bar>h x\<bar>) xs)"
    by (rule norm2_mono) (rule assms(3))
  also have "\<dots> \<le> norm2 (map (\<lambda>x. k * \<bar>g x\<bar>) xs) + norm2 (map (\<lambda>x. m * \<bar>h x\<bar>) xs)"
    by (rule norm2_triangle)
  also have "\<dots> = k * norm2 (map g xs) + m * norm2 (map h xs)"
    using assms(1,2) by (simp add: norm2_scale_abs)
  finally show ?thesis .
qed

lemma abs_le_norm2: "x \<in> set xs \<Longrightarrow> \<bar>x\<bar> \<le> norm2 xs"
proof (induction xs)
  case Nil
  then show ?case by simp
next
  case (Cons a xs)
  have n: "0 \<le> norm2 xs" by (rule norm2_nonneg)
  show ?case
  proof (cases "x = a")
    case True
    have "\<bar>a\<bar> = sqrt (a * a)" by simp
    also have "\<dots> \<le> sqrt (a * a + norm2 xs * norm2 xs)"
      by (rule real_sqrt_le_mono) simp
    finally show ?thesis by (simp add: True norm2_Cons)
  next
    case False
    with Cons have "\<bar>x\<bar> \<le> norm2 xs" by simp
    also have "norm2 xs = sqrt (norm2 xs * norm2 xs)" using n by simp
    also have "\<dots> \<le> sqrt (a * a + norm2 xs * norm2 xs)"
      by (rule real_sqrt_le_mono) simp
    finally show ?thesis by (simp add: norm2_Cons)
  qed
qed

lemma norm2_three_terms:
  assumes "0 \<le> k" "0 \<le> m" "0 \<le> e"
      and "\<forall>x \<in> set xs. \<bar>f x\<bar> \<le> k * \<bar>g x\<bar> + m * \<bar>h x\<bar> + e"
  shows "norm2 (map f xs) \<le>
           k * norm2 (map g xs) + m * norm2 (map h xs) + e * sqrt (real (length xs))"
proof -
  have "norm2 (map f xs) \<le> norm2 (map (\<lambda>x. (k * \<bar>g x\<bar> + m * \<bar>h x\<bar>) + e) xs)"
    by (rule norm2_mono) (rule assms(4))
  also have "\<dots> \<le> norm2 (map (\<lambda>x. k * \<bar>g x\<bar> + m * \<bar>h x\<bar>) xs) + norm2 (map (\<lambda>x. e) xs)"
    by (rule norm2_triangle)
  also have "norm2 (map (\<lambda>x. e) xs) = e * sqrt (real (length xs))"
    by (rule norm2_const) (rule assms(3))
  also have "norm2 (map (\<lambda>x. k * \<bar>g x\<bar> + m * \<bar>h x\<bar>) xs) \<le>
               k * norm2 (map g xs) + m * norm2 (map h xs)"
  proof (rule norm2_two_terms [OF assms(1,2)])
    show "\<forall>x \<in> set xs. \<bar>k * \<bar>g x\<bar> + m * \<bar>h x\<bar>\<bar> \<le> k * \<bar>g x\<bar> + m * \<bar>h x\<bar>"
      using assms(1,2) by simp
  qed
  finally show ?thesis by simp
qed

lemma norm2_single: "norm2 [x] = \<bar>x\<bar>"
  by (simp add: norm2_def)

lemma norm2_affine:
  assumes "0 \<le> k" "0 \<le> h" "\<forall>x \<in> set xs. \<bar>f x\<bar> \<le> k * \<bar>g x\<bar> + h"
  shows "norm2 (map f xs) \<le> k * norm2 (map g xs) + h * sqrt (real (length xs))"
proof -
  have "norm2 (map f xs) \<le> k * norm2 (map g xs) + h * norm2 (map (\<lambda>x. 1) xs)"
    using assms by (intro norm2_two_terms) simp_all
  also have "norm2 (map (\<lambda>x. 1::real) xs) = 1 * sqrt (real (length xs))"
    by (rule norm2_const) simp
  finally show ?thesis by simp
qed

lemma fl_ok_exact: "fl_ok exact_arith 0 0 M"
  by (simp add: fl_ok_def exact_arith_def)

lemma rounded_radius_exact: "rounded_radius 0 0 0 d radius center_norm = radius"
  by (simp add: rounded_radius_def)

lemma fl_dense_pipeline:
  "map2 (flift fa) (map Fin c)
     (map (flift fm (Fin r)) (map (flift fm (Fin s)) (map (\<lambda>z. Fin (fd z n)) zs))) =
   map Fin (map2 fa c (map (\<lambda>z. fm r (fm s (fd z n))) zs))"
proof (induction c arbitrary: zs)
  case Nil
  show ?case by simp
next
  case (Cons a c)
  show ?case
  proof (cases zs)
    case Nil
    then show ?thesis by simp
  next
    case (Cons z zs')
    with Cons.IH [of zs'] show ?thesis by simp
  qed
qed

lemma sample_fl_dense_value:
  assumes n: "rs_normal E (length c) g = (zs, g1)" and u: "rs_uniform E g1 = (u, g2)"
      and c: "c \<noteq> []" and z: "fl_norm F zs \<noteq> 0"
  shows "make_geometric_sample_fl F E (NdRow c) radius g =
           Inr (map Fin (map2 (fl_add F) c
                  (map (\<lambda>z. fl_mul F radius
                          (fl_mul F (fl_pow F u (fl_div F 1 (real (length c))))
                             (fl_div F z (fl_norm F zs)))) zs)))"
proof -
  have "make_geometric_sample_fl F E (NdRow c) radius g =
          row_add_fl F E (NdRow c)
            (map (flift (fl_mul F) (Fin radius))
               (map (flift (fl_mul F) (Fin (fl_pow F u (fl_div F 1 (real (length c))))))
                  (map (\<lambda>z. Fin (fl_div F z (fl_norm F zs))) zs)))"
    using n u c z by (simp add: make_geometric_sample_fl_def row_size_def Let_def comp_def)
  also have "\<dots> = Inr (map2 (flift (fl_add F)) (map Fin c)
            (map (flift (fl_mul F) (Fin radius))
               (map (flift (fl_mul F) (Fin (fl_pow F u (fl_div F 1 (real (length c))))))
                  (map (\<lambda>z. Fin (fl_div F z (fl_norm F zs))) zs))))"
    by (simp only: row_add_fl_def row.case)
  finally show ?thesis by (simp only: fl_dense_pipeline)
qed

lemma abs_le_from_error:
  fixes y x :: real
  assumes "\<bar>y - x\<bar> \<le> e * \<bar>x\<bar> + h"
  shows "\<bar>y\<bar> \<le> (1 + e) * \<bar>x\<bar> + h"
proof -
  have "\<bar>y\<bar> \<le> \<bar>x\<bar> + \<bar>y - x\<bar>" by simp
  with assms show ?thesis by (simp add: algebra_simps)
qed

lemma vsub_map2_zip:
  "length w = length c \<Longrightarrow>
   vsub (map2 f c w) c = map (\<lambda>(ci, wi). f ci wi - ci) (zip c w)"
  unfolding vsub_def
  by (induction c w rule: list_induct2') auto

subsection \<open>Rounding to the nearest double\<close>

lemma rne_error: "\<bar>of_int (rne y) - y\<bar> \<le> 1 / 2"
proof -
  have "of_int \<lfloor>y\<rfloor> \<le> y" "y < of_int \<lfloor>y\<rfloor> + 1" by linarith+
  then show ?thesis by (auto simp: rne_def Let_def)
qed

lemma rne_near: "\<bar>y - of_int m\<bar> < 1 / 2 \<Longrightarrow> rne y = m"
proof -
  assume a: "\<bar>y - of_int m\<bar> < 1 / 2"
  show ?thesis
  proof (cases "of_int m \<le> y")
    case True
    with a have "\<lfloor>y\<rfloor> = m" by (intro floor_unique) linarith+
    with a True show ?thesis by (simp add: rne_def Let_def)
  next
    case False
    with a have "real_of_int m - 1 \<le> y" "y < real_of_int m" by linarith+
    then have f: "\<lfloor>y\<rfloor> = m - 1" by (intro floor_unique) simp_all
    have "y - real_of_int (m - 1) = y - real_of_int m + 1" by simp
    with a False f show ?thesis by (simp add: rne_def Let_def)
  qed
qed

lemma rne_int: "rne (of_int m) = m"
  by (rule rne_near) simp

lemma floor_log2:
  assumes "2 powr of_int e \<le> \<bar>x\<bar>" "\<bar>x\<bar> < 2 powr (of_int e + 1)"
  shows "\<lfloor>log 2 \<bar>x\<bar>\<rfloor> = e"
proof -
  have "(0::real) < 2 powr of_int e" by simp
  with assms(1) have pos: "0 < \<bar>x\<bar>" by linarith
  from assms(1) pos have "of_int e \<le> log 2 \<bar>x\<bar>" by (simp add: le_log_iff)
  moreover from assms(2) pos have "log 2 \<bar>x\<bar> < of_int e + 1" by (simp add: log_less_iff)
  ultimately show ?thesis by (intro floor_unique)
qed

lemma round_double_eval:
  assumes "2 powr of_int e \<le> \<bar>x\<bar>" "\<bar>x\<bar> < 2 powr (of_int e + 1)" and "- 1022 \<le> e"
      and "q = 2 powr (of_int e - 52)" and "rne (x / q) = m"
  shows "round_double x = q * of_int m"
proof -
  have "(0::real) < 2 powr of_int e" by simp
  with assms(1) have "x \<noteq> 0" by auto
  moreover from assms(3) have "max e (- 1022) = e" by simp
  ultimately show ?thesis
    using floor_log2 [OF assms(1,2)] assms(4,5)
    by (simp add: round_double_def Let_def)
qed

lemma round_double_error:
  "\<bar>round_double x - x\<bar> \<le> (1 / 2 ^ 53) * \<bar>x\<bar> + 1 / 2 ^ 1075"
proof (cases "x = 0")
  case True
  then show ?thesis by (simp add: round_double_def)
next
  case False
  define e where "e = max \<lfloor>log 2 \<bar>x\<bar>\<rfloor> (- 1022)"
  define q where "q = (2::real) powr (of_int e - 52)"
  have qpos: "0 < q" by (simp add: q_def)
  from False have pos: "0 < \<bar>x\<bar>" by simp
  have rd: "round_double x = q * of_int (rne (x / q))"
    using False by (simp add: round_double_def Let_def e_def q_def)
  have "\<bar>round_double x - x\<bar> = q * \<bar>of_int (rne (x / q)) - x / q\<bar>"
  proof -
    have "round_double x - x = q * (of_int (rne (x / q)) - x / q)"
      using qpos by (simp add: rd algebra_simps)
    then show ?thesis using qpos by (simp add: abs_mult)
  qed
  also have "\<dots> \<le> q * (1 / 2)"
    using qpos rne_error [of "x / q"] by (intro mult_left_mono) simp_all
  finally have half: "\<bar>round_double x - x\<bar> \<le> q * (1 / 2)" .
  show ?thesis
  proof (cases "- 1022 \<le> \<lfloor>log 2 \<bar>x\<bar>\<rfloor>")
    case True
    then have e: "e = \<lfloor>log 2 \<bar>x\<bar>\<rfloor>" by (simp add: e_def)
    have "of_int e \<le> log 2 \<bar>x\<bar>" unfolding e by linarith
    with pos have lo: "2 powr of_int e \<le> \<bar>x\<bar>" by (simp add: le_log_iff)
    have "q * (1 / 2) = (1 / 2 ^ 53) * 2 powr of_int e"
      by (simp add: q_def powr_diff)
    also have "\<dots> \<le> (1 / 2 ^ 53) * \<bar>x\<bar>"
      using lo by (intro mult_left_mono) simp_all
    finally have "q * (1 / 2) \<le> (1 / 2 ^ 53) * \<bar>x\<bar>" .
    moreover have "(0::real) \<le> 1 / 2 ^ 1075" by simp
    ultimately show ?thesis using half by linarith
  next
    case False
    then have e: "e = - 1022" by (simp add: e_def)
    have "q = 1 / 2 ^ 1074" by (simp add: q_def e powr_neg_numeral)
    then have "q * (1 / 2) = 1 / 2 ^ 1075" by simp
    moreover have "0 \<le> (1 / 2 ^ 53) * \<bar>x\<bar>" by simp
    ultimately show ?thesis using half by linarith
  qed
qed

lemma fl_ok_ieee: "fl_ok ieee_arith (1 / 2 ^ 53) (1 / 2 ^ 1075) M"
  unfolding fl_ok_def
proof (intro conjI allI impI)
  show "(0::real) \<le> 1 / 2 ^ 53" by simp
  show "(0::real) \<le> 1 / 2 ^ 1075" by simp
next
  fix a b
  show "\<bar>fl_add ieee_arith a b - (a + b)\<bar> \<le> 1 / 2 ^ 53 * \<bar>a + b\<bar> + 1 / 2 ^ 1075"
    unfolding ieee_arith_def fl_arith.select_convs by (rule round_double_error)
next
  fix a b
  show "\<bar>fl_mul ieee_arith a b - a * b\<bar> \<le> 1 / 2 ^ 53 * \<bar>a * b\<bar> + 1 / 2 ^ 1075"
    unfolding ieee_arith_def fl_arith.select_convs by (rule round_double_error)
next
  fix a b :: real
  show "\<bar>fl_div ieee_arith a b - a / b\<bar> \<le> 1 / 2 ^ 53 * \<bar>a / b\<bar> + 1 / 2 ^ 1075"
    unfolding ieee_arith_def fl_arith.select_convs by (rule round_double_error)
qed

lemma round_double_1: "round_double 1 = 1"
proof -
  have "round_double 1 = 2 powr (of_int 0 - 52) * of_int (2 ^ 52)"
  proof (rule round_double_eval [where e = 0])
    show "rne (1 / 2 powr (of_int 0 - 52)) = 2 ^ 52"
    proof -
      have "1 / 2 powr (of_int 0 - 52) = real_of_int (2 ^ 52)"
        by (simp add: powr_neg_numeral)
      then show ?thesis by (simp only: rne_int)
    qed
  qed simp_all
  then show ?thesis by (simp add: powr_neg_numeral)
qed

lemma round_double_3_4: "round_double (3 / 4) = 3 / 4"
proof -
  have "round_double (3 / 4) = 2 powr (of_int (- 1) - 52) * of_int (3 * 2 ^ 51)"
  proof (rule round_double_eval [where e = "- 1"])
    show "rne (3 / 4 / 2 powr (of_int (- 1) - 52)) = 3 * 2 ^ 51"
    proof -
      have "3 / 4 / 2 powr (of_int (- 1) - 52) = real_of_int (3 * 2 ^ 51)"
        by (simp add: powr_neg_numeral)
      then show ?thesis by (simp only: rne_int)
    qed
  qed (simp_all add: powr_neg_numeral)
  then show ?thesis by (simp add: powr_neg_numeral)
qed

lemma round_double_9_8: "round_double (9 / 8) = 9 / 8"
proof -
  have "round_double (9 / 8) = 2 powr (of_int 0 - 52) * of_int (9 * 2 ^ 49)"
  proof (rule round_double_eval [where e = 0])
    show "rne (9 / 8 / 2 powr (of_int 0 - 52)) = 9 * 2 ^ 49"
    proof -
      have "9 / 8 / 2 powr (of_int 0 - 52) = real_of_int (9 * 2 ^ 49)"
        by (simp add: powr_neg_numeral)
      then show ?thesis by (simp only: rne_int)
    qed
  qed simp_all
  then show ?thesis by (simp add: powr_neg_numeral)
qed

lemma round_double_big:
  "round_double (10000000000000000 + 9 / 8) = 10000000000000002"
proof -
  have "round_double (10000000000000000 + 9 / 8) =
          2 powr (of_int 53 - 52) * of_int 5000000000000001"
  proof (rule round_double_eval [where e = 53])
    show "rne ((10000000000000000 + 9 / 8) / 2 powr (of_int 53 - 52)) = 5000000000000001"
      by (rule rne_near) simp
  qed simp_all
  then show ?thesis by simp
qed

subsection \<open>A sample at a large center\<close>

lemma generator_ok_three_quarter: "generator_ok three_quarter_env"
  by (simp add: generator_ok_def counter_env_def three_quarter_env_def)

lemma three_quarter_normal: "rs_normal three_quarter_env (length [c::real]) 0 = ([1], 1)"
  by (simp add: three_quarter_env_def counter_env_def)

lemma three_quarter_normal_one: "rs_normal three_quarter_env (Suc 0) 0 = ([1], 1)"
  by (simp add: three_quarter_env_def counter_env_def)

lemma three_quarter_uniform: "rs_uniform three_quarter_env 1 = (3 / 4, 2)"
  by (simp add: three_quarter_env_def counter_env_def)

lemma ieee_norm_unit: "fl_norm ieee_arith [1] = 1"
  by (simp add: ieee_arith_def round_double_1)

lemma ieee_exponent: "fl_div ieee_arith 1 (real (length [c::real])) = 1"
  by (simp add: ieee_arith_def round_double_1)

lemma ieee_power: "fl_pow ieee_arith (3 / 4) 1 = 3 / 4"
  by (simp add: ieee_arith_def round_double_3_4)

lemma ieee_direction: "fl_div ieee_arith 1 1 = 1"
  by (simp add: ieee_arith_def round_double_1)

lemma ieee_in_ball: "fl_mul ieee_arith (3 / 4) 1 = 3 / 4"
  by (simp add: ieee_arith_def round_double_3_4)

lemma ieee_offset: "fl_mul ieee_arith (3 / 2) (3 / 4) = 9 / 8"
proof -
  have "(3 / 2) * (3 / 4) = (9 / 8 :: real)" by simp
  then show ?thesis by (simp only: ieee_arith_def fl_arith.select_convs round_double_9_8)
qed

lemma ieee_sum: "fl_add ieee_arith 10000000000000000 (9 / 8) = 10000000000000002"
  by (simp only: ieee_arith_def fl_arith.select_convs round_double_big)

lemma ieee_sample:
  "make_geometric_sample_fl ieee_arith three_quarter_env (NdRow [10000000000000000]) (3 / 2) 0 =
     Inr [Fin 10000000000000002]"
proof -
  have nz: "fl_norm ieee_arith [1] \<noteq> 0" by (simp add: ieee_norm_unit)
  have c: "[10000000000000000::real] \<noteq> []" by simp
  show ?thesis
    unfolding sample_fl_dense_value [OF three_quarter_normal three_quarter_uniform c nz]
    by (simp add: ieee_exponent ieee_norm_unit ieee_power ieee_direction ieee_in_ball
          ieee_offset ieee_sum)
qed

lemma distance_two: "norm2 (vsub [10000000000000002] [10000000000000000]) = 2"
  by (simp add: norm2_def vsub_def)

lemma reach_at_input:
  "rounded_reach (1 / 2 ^ 53) (1 / 2 ^ 1075) 0 (3 / 2) (norm2 [10000000000000000]) \<le> double_max"
  by (simp add: rounded_reach_def norm2_single double_max_def Let_def)

subsection \<open>The sample and the closed ball\<close>

text \<open>
  With doubles the sampler does not stay in the closed ball. For the center \<open>[1e16]\<close> and the
  radius 1.5, with the normal draw 1 and the uniform draw 0.75, every step is exact but the
  last: the direction is 1, the point of the unit ball 0.75, the offset 1.125, and
  \<open>1e16 + 1.125\<close> is rounded to \<open>1e16 + 2\<close>, the nearest double (doubles are 2 apart there).
  The returned point is at distance 2 from the center. In one dimension the direction is 1
  for every positive draw.
\<close>

theorem rounding_leaves_ball_counterexample:
  "generator_ok three_quarter_env \<and> (0::real) < 3 / 2 \<and>
   fst (rs_normal three_quarter_env (length [10000000000000000::real]) 0) = [1] \<and>
   make_geometric_sample_fl ieee_arith three_quarter_env (NdRow [10000000000000000]) (3 / 2) 0 =
     Inr (map Fin [10000000000000002]) \<and>
   norm2 (vsub [10000000000000002] [10000000000000000]) = 2 \<and>
   \<not> norm2 (vsub [10000000000000002] [10000000000000000]) \<le> 3 / 2"
  using generator_ok_three_quarter
  by (simp add: three_quarter_normal_one ieee_sample distance_two)

text \<open>
  Claim C1, amended. For a numpy center vector \<open>c\<close> of \<open>n\<close> coordinates, a radius \<open>> 0\<close>, a
  generator that keeps numpy's contract and a drawn standard-normal vector with a nonzero
  component: if the arithmetic returns every result up to \<open>M\<close> with relative error \<open>eps\<close> and
  absolute error \<open>eta\<close>, the computed norm of the draw is at least \<open>1 - gamma\<close> times its
  norm, the computed power \<^verbatim>\<open>u ** (1 / n)\<close> lies in \<open>[0, 1]\<close> and no intermediate result
  exceeds \<open>M\<close>, then the sampler returns a finite point \<open>p\<close> of the center's length with
  \<open>\<parallel>p - c\<parallel> \<le> rounded_radius eps eta gamma n radius \<parallel>c\<parallel>\<close>. The bound is \<open>radius\<close> itself for
  exact arithmetic (\<open>eps = eta = gamma = 0\<close>), and exceeds it by about \<open>2\<^sup>-\<^sup>5\<^sup>3 \<parallel>c\<parallel>\<close> for
  doubles.
\<close>

theorem make_geometric_sample_in_rounded_ball:
  assumes ok: "generator_ok E" and fl: "fl_ok F eps eta M" and r: "0 < radius"
      and nz: "\<exists>z \<in> set (fst (rs_normal E (length c) g)). z \<noteq> 0"
      and gam: "0 \<le> gamma" "gamma < 1"
      and nrm: "(1 - gamma) * norm2 (fst (rs_normal E (length c) g)) \<le>
                  fl_norm F (fst (rs_normal E (length c) g))"
      and pw: "0 \<le> fl_pow F (fst (rs_uniform E (snd (rs_normal E (length c) g))))
                       (fl_div F 1 (real (length c)))"
              "fl_pow F (fst (rs_uniform E (snd (rs_normal E (length c) g))))
                       (fl_div F 1 (real (length c))) \<le> 1"
      and reach: "rounded_reach eps eta gamma radius (norm2 c) \<le> M"
  shows "\<exists>p. make_geometric_sample_fl F E (NdRow c) radius g = Inr (map Fin p) \<and>
             length p = length c \<and>
             norm2 (vsub p c) \<le> rounded_radius eps eta gamma (length c) radius (norm2 c)"
proof -
  obtain zs g1 where n: "rs_normal E (length c) g = (zs, g1)" by (cases "rs_normal E (length c) g")
  obtain u g2 where u: "rs_uniform E g1 = (u, g2)" by (cases "rs_uniform E g1")
  from ok n have len: "length zs = length c"
    unfolding generator_ok_def by (metis fst_conv)
  from nz n have z: "norm2 zs \<noteq> 0" by (simp add: norm2_zero_iff)
  with norm2_nonneg [of zs] have zpos: "0 < norm2 zs" by simp
  from nz n len have c: "c \<noteq> []" by auto
  define nn where "nn = fl_norm F zs"
  define s where "s = fl_pow F u (fl_div F 1 (real (length c)))"
  define d where "d = sqrt (real (length c))"
  from fl have e0: "0 \<le> eps" and h0: "0 \<le> eta"
      and add: "\<And>a b. \<bar>a + b\<bar> \<le> M \<Longrightarrow> \<bar>fl_add F a b - (a + b)\<bar> \<le> eps * \<bar>a + b\<bar> + eta"
      and mul: "\<And>a b. \<bar>a * b\<bar> \<le> M \<Longrightarrow> \<bar>fl_mul F a b - a * b\<bar> \<le> eps * \<bar>a * b\<bar> + eta"
      and dv: "\<And>a b. b \<noteq> 0 \<Longrightarrow> \<bar>a / b\<bar> \<le> M \<Longrightarrow>
                 \<bar>fl_div F a b - a / b\<bar> \<le> eps * \<bar>a / b\<bar> + eta"
    unfolding fl_ok_def by blast+
  from nrm n have nrm': "(1 - gamma) * norm2 zs \<le> nn" by (simp add: nn_def)
  from gam zpos have "0 < (1 - gamma) * norm2 zs" by simp
  with nrm' have npos: "0 < nn" by linarith
  from pw n u have s01: "0 \<le> s" "s \<le> 1" by (simp_all add: s_def)
  have d0: "0 \<le> d" by (simp add: d_def)
  define dirn where "dirn = (\<lambda>z. fl_div F z nn)"
  define b where "b = (\<lambda>z. fl_mul F s (dirn z))"
  define w where "w = (\<lambda>z. fl_mul F radius (b z))"
  define p where "p = map2 (fl_add F) c (map w zs)"
  have val: "make_geometric_sample_fl F E (NdRow c) radius g = Inr (map Fin p)"
    using sample_fl_dense_value [OF n u c, of F radius] npos
    by (simp add: p_def w_def b_def dirn_def s_def nn_def)
  have lw: "length (map w zs) = length c" by (simp add: len)
  have lp: "length p = length c" by (simp add: p_def len)
  \<comment> \<open>how far the exact results reach\<close>
  define D1 where "D1 = (1 + eps) / (1 - gamma) + eta"
  define B1 where "B1 = (1 + eps) * D1 + eta"
  define W1 where "W1 = (1 + eps) * radius * B1 + eta"
  from reach have r1: "D1 \<le> M" and r2: "radius * B1 \<le> M" and r3: "norm2 c + W1 \<le> M"
    by (simp_all add: rounded_reach_def Let_def D1_def B1_def W1_def)
  have nle: "norm2 zs \<le> nn / (1 - gamma)"
    using nrm' gam by (simp add: pos_le_divide_eq mult.commute)
  have q_le: "\<forall>z \<in> set zs. \<bar>z / nn\<bar> \<le> 1 / (1 - gamma)"
  proof
    fix z assume "z \<in> set zs"
    then have "\<bar>z\<bar> \<le> norm2 zs" by (rule abs_le_norm2)
    with nle have "\<bar>z\<bar> \<le> nn / (1 - gamma)" by linarith
    then have "\<bar>z\<bar> / nn \<le> nn / (1 - gamma) / nn"
      using npos by (intro divide_right_mono) simp_all
    with npos show "\<bar>z / nn\<bar> \<le> 1 / (1 - gamma)" by (simp add: abs_divide)
  qed
  have one_D1: "1 / (1 - gamma) \<le> D1"
  proof -
    have "1 / (1 - gamma) \<le> (1 + eps) / (1 - gamma)"
      using e0 gam by (intro divide_right_mono) simp_all
    with h0 show ?thesis by (simp add: D1_def)
  qed
  \<comment> \<open>the direction\<close>
  have o_pt: "\<forall>z \<in> set zs. \<bar>dirn z\<bar> \<le> (1 + eps) * \<bar>z / nn\<bar> + eta"
  proof
    fix z assume zin: "z \<in> set zs"
    from npos have n0: "nn \<noteq> 0" by simp
    from q_le zin one_D1 r1 have "\<bar>z / nn\<bar> \<le> M" by fastforce
    from abs_le_from_error [OF dv [OF n0 this]]
    show "\<bar>dirn z\<bar> \<le> (1 + eps) * \<bar>z / nn\<bar> + eta" by (simp add: dirn_def)
  qed
  have o_le: "\<forall>z \<in> set zs. \<bar>dirn z\<bar> \<le> ((1 + eps) / nn) * \<bar>z\<bar> + eta"
  proof
    fix z assume zin: "z \<in> set zs"
    have "(1 + eps) * \<bar>z / nn\<bar> = ((1 + eps) / nn) * \<bar>z\<bar>"
      using npos by (simp add: abs_divide)
    with o_pt zin show "\<bar>dirn z\<bar> \<le> ((1 + eps) / nn) * \<bar>z\<bar> + eta" by fastforce
  qed
  have o_D1: "\<forall>z \<in> set zs. \<bar>dirn z\<bar> \<le> D1"
  proof
    fix z assume zin: "z \<in> set zs"
    with q_le have "\<bar>z / nn\<bar> \<le> 1 / (1 - gamma)" by blast
    then have "(1 + eps) * \<bar>z / nn\<bar> \<le> (1 + eps) * (1 / (1 - gamma))"
      using e0 by (intro mult_left_mono) simp_all
    with o_pt zin show "\<bar>dirn z\<bar> \<le> D1" by (fastforce simp: D1_def)
  qed
  have "norm2 (map dirn zs) \<le> ((1 + eps) / nn) * norm2 (map (\<lambda>z. z) zs) + eta * sqrt (real (length zs))"
    using e0 npos h0 o_le by (intro norm2_affine) simp_all
  then have no1: "norm2 (map dirn zs) \<le> ((1 + eps) / nn) * norm2 zs + eta * d"
    by (simp add: d_def len)
  have "((1 + eps) / nn) * norm2 zs \<le> ((1 + eps) / nn) * (nn / (1 - gamma))"
    using e0 npos nle by (intro mult_left_mono) simp_all
  also have "\<dots> = (1 + eps) / (1 - gamma)" using npos by simp
  finally have no2: "((1 + eps) / nn) * norm2 zs \<le> (1 + eps) / (1 - gamma)" .
  define D where "D = (1 + eps) / (1 - gamma) + eta * d"
  from no1 no2 have nO: "norm2 (map dirn zs) \<le> D" by (simp add: D_def)
  \<comment> \<open>the point in the unit ball\<close>
  have sd: "\<forall>z \<in> set zs. \<bar>s * dirn z\<bar> \<le> \<bar>dirn z\<bar>"
  proof
    fix z assume "z \<in> set zs"
    have "\<bar>s * dirn z\<bar> = s * \<bar>dirn z\<bar>" using s01 by (simp add: abs_mult)
    also have "\<dots> \<le> 1 * \<bar>dirn z\<bar>" using s01 by (intro mult_right_mono) simp_all
    finally show "\<bar>s * dirn z\<bar> \<le> \<bar>dirn z\<bar>" by simp
  qed
  have b_le: "\<forall>z \<in> set zs. \<bar>b z\<bar> \<le> (1 + eps) * \<bar>dirn z\<bar> + eta"
  proof
    fix z assume zin: "z \<in> set zs"
    from sd o_D1 zin r1 have "\<bar>s * dirn z\<bar> \<le> M" by fastforce
    from abs_le_from_error [OF mul [OF this]]
    have "\<bar>b z\<bar> \<le> (1 + eps) * \<bar>s * dirn z\<bar> + eta" by (simp add: b_def)
    moreover have "(1 + eps) * \<bar>s * dirn z\<bar> \<le> (1 + eps) * \<bar>dirn z\<bar>"
      using sd zin e0 by (intro mult_left_mono) simp_all
    ultimately show "\<bar>b z\<bar> \<le> (1 + eps) * \<bar>dirn z\<bar> + eta" by linarith
  qed
  have b_B1: "\<forall>z \<in> set zs. \<bar>b z\<bar> \<le> B1"
  proof
    fix z assume zin: "z \<in> set zs"
    with o_D1 have "(1 + eps) * \<bar>dirn z\<bar> \<le> (1 + eps) * D1"
      using e0 by (intro mult_left_mono) simp_all
    with b_le zin show "\<bar>b z\<bar> \<le> B1" by (fastforce simp: B1_def)
  qed
  have "norm2 (map b zs) \<le> (1 + eps) * norm2 (map dirn zs) + eta * sqrt (real (length zs))"
    using e0 h0 b_le by (intro norm2_affine) simp_all
  also have "\<dots> \<le> (1 + eps) * D + eta * d"
    using nO e0 by (simp add: d_def len mult_left_mono)
  finally have nB: "norm2 (map b zs) \<le> (1 + eps) * D + eta * d" .
  define B where "B = (1 + eps) * D + eta * d"
  \<comment> \<open>the offset\<close>
  have rb: "\<forall>z \<in> set zs. \<bar>radius * b z\<bar> = radius * \<bar>b z\<bar>"
    using r by (simp add: abs_mult)
  have w_le: "\<forall>z \<in> set zs. \<bar>w z\<bar> \<le> ((1 + eps) * radius) * \<bar>b z\<bar> + eta"
  proof
    fix z assume zin: "z \<in> set zs"
    with b_B1 have "radius * \<bar>b z\<bar> \<le> radius * B1"
      using r by (intro mult_left_mono) simp_all
    with rb zin r2 have "\<bar>radius * b z\<bar> \<le> M" by fastforce
    from abs_le_from_error [OF mul [OF this]]
    have "\<bar>w z\<bar> \<le> (1 + eps) * \<bar>radius * b z\<bar> + eta" by (simp add: w_def)
    with rb zin show "\<bar>w z\<bar> \<le> ((1 + eps) * radius) * \<bar>b z\<bar> + eta"
      by (simp add: mult.assoc)
  qed
  have w_W1: "\<forall>z \<in> set zs. \<bar>w z\<bar> \<le> W1"
  proof
    fix z assume zin: "z \<in> set zs"
    with b_B1 have "((1 + eps) * radius) * \<bar>b z\<bar> \<le> ((1 + eps) * radius) * B1"
      using e0 r by (intro mult_left_mono) simp_all
    with w_le zin show "\<bar>w z\<bar> \<le> W1" by (fastforce simp: W1_def)
  qed
  have "norm2 (map w zs) \<le> ((1 + eps) * radius) * norm2 (map b zs) + eta * sqrt (real (length zs))"
    using e0 h0 r w_le by (intro norm2_affine) simp_all
  also have "\<dots> \<le> ((1 + eps) * radius) * B + eta * d"
    using nB e0 r by (simp add: d_def len B_def mult_left_mono)
  finally have nW: "norm2 (map w zs) \<le> (1 + eps) * radius * B + eta * d" .
  define W where "W = (1 + eps) * radius * B + eta * d"
  \<comment> \<open>the final addition\<close>
  have diff: "vsub p c = map (\<lambda>(ci, wi). fl_add F ci wi - ci) (zip c (map w zs))"
    unfolding p_def by (rule vsub_map2_zip) (rule lw)
  have pt: "\<forall>x \<in> set (zip c (map w zs)).
              \<bar>(\<lambda>(ci, wi). fl_add F ci wi - ci) x\<bar> \<le>
                (1 + eps) * \<bar>snd x\<bar> + eps * \<bar>fst x\<bar> + eta"
  proof
    fix x assume xin: "x \<in> set (zip c (map w zs))"
    obtain ci wi where x: "x = (ci, wi)" by (cases x)
    from xin x have "ci \<in> set c" by (auto dest: set_zip_leftD)
    then have ci: "\<bar>ci\<bar> \<le> norm2 c" by (rule abs_le_norm2)
    from xin x have "wi \<in> set (map w zs)" by (auto dest: set_zip_rightD)
    with w_W1 have wi: "\<bar>wi\<bar> \<le> W1" by auto
    have "\<bar>ci + wi\<bar> \<le> \<bar>ci\<bar> + \<bar>wi\<bar>" by simp
    with ci wi r3 have "\<bar>ci + wi\<bar> \<le> M" by linarith
    note a = add [OF this]
    have "\<bar>fl_add F ci wi - ci\<bar> \<le> \<bar>fl_add F ci wi - (ci + wi)\<bar> + \<bar>wi\<bar>" by simp
    also have "\<dots> \<le> eps * \<bar>ci + wi\<bar> + eta + \<bar>wi\<bar>" using a by simp
    also have "\<dots> \<le> eps * (\<bar>ci\<bar> + \<bar>wi\<bar>) + eta + \<bar>wi\<bar>"
      using e0 by (simp add: mult_left_mono)
    finally show "\<bar>(\<lambda>(ci, wi). fl_add F ci wi - ci) x\<bar> \<le>
        (1 + eps) * \<bar>snd x\<bar> + eps * \<bar>fst x\<bar> + eta"
      by (simp add: x algebra_simps)
  qed
  have "norm2 (vsub p c) \<le>
          (1 + eps) * norm2 (map snd (zip c (map w zs))) +
          eps * norm2 (map fst (zip c (map w zs))) +
          eta * sqrt (real (length (zip c (map w zs))))"
    unfolding diff using e0 h0 pt by (intro norm2_three_terms) simp_all
  also have "map snd (zip c (map w zs)) = map w zs" using lw by (simp add: map_snd_zip)
  also have "map fst (zip c (map w zs)) = c" using lw by (simp add: map_fst_zip)
  also have "sqrt (real (length (zip c (map w zs)))) = d" by (simp add: d_def len)
  also have "(1 + eps) * norm2 (map w zs) + eps * norm2 c + eta * d \<le>
             (1 + eps) * W + eps * norm2 c + eta * d"
    using nW e0 by (simp add: W_def mult_left_mono)
  finally have "norm2 (vsub p c) \<le> (1 + eps) * W + eps * norm2 c + eta * d" .
  moreover have "rounded_radius eps eta gamma (length c) radius (norm2 c) =
      (1 + eps) * W + eps * norm2 c + eta * d"
    by (simp add: rounded_radius_def W_def B_def D_def d_def Let_def)
  ultimately show ?thesis using val lp by auto
qed

theorem make_geometric_sample_in_rounded_ball_witness:
  "generator_ok three_quarter_env \<and> fl_ok ieee_arith (1 / 2 ^ 53) (1 / 2 ^ 1075) double_max \<and>
   (0::real) < 3 / 2 \<and>
   (\<exists>z \<in> set (fst (rs_normal three_quarter_env (length [10000000000000000::real]) 0)). z \<noteq> 0) \<and>
   (1 - 0) * norm2 (fst (rs_normal three_quarter_env (length [10000000000000000::real]) 0)) \<le>
     fl_norm ieee_arith (fst (rs_normal three_quarter_env (length [10000000000000000::real]) 0)) \<and>
   fl_pow ieee_arith (fst (rs_uniform three_quarter_env
       (snd (rs_normal three_quarter_env (length [10000000000000000::real]) 0))))
     (fl_div ieee_arith 1 (real (length [10000000000000000::real]))) = 3 / 4 \<and>
   rounded_reach (1 / 2 ^ 53) (1 / 2 ^ 1075) 0 (3 / 2) (norm2 [10000000000000000]) \<le> double_max \<and>
   (\<exists>p. make_geometric_sample_fl ieee_arith three_quarter_env (NdRow [10000000000000000]) (3 / 2) 0 =
          Inr (map Fin p) \<and>
        length p = length [10000000000000000::real] \<and>
        norm2 (vsub p [10000000000000000]) \<le>
          rounded_radius (1 / 2 ^ 53) (1 / 2 ^ 1075) 0 (length [10000000000000000::real]) (3 / 2)
            (norm2 [10000000000000000]))"
proof -
  let ?c = "[10000000000000000::real]"
  have r: "(0::real) < 3 / 2" by simp
  have nz: "\<exists>z \<in> set (fst (rs_normal three_quarter_env (length ?c) 0)). z \<noteq> 0"
    by (simp add: three_quarter_normal_one)
  have g0: "(0::real) \<le> 0" and g1: "(0::real) < 1" by simp_all
  have nrm: "(1 - 0) * norm2 (fst (rs_normal three_quarter_env (length ?c) 0)) \<le>
               fl_norm ieee_arith (fst (rs_normal three_quarter_env (length ?c) 0))"
    by (simp add: three_quarter_normal_one ieee_norm_unit norm2_def)
  have pw: "fl_pow ieee_arith (fst (rs_uniform three_quarter_env
                (snd (rs_normal three_quarter_env (length ?c) 0))))
              (fl_div ieee_arith 1 (real (length ?c))) = 3 / 4"
    by (simp only: three_quarter_normal snd_conv three_quarter_uniform fst_conv ieee_exponent
          ieee_power)
  have pw0: "0 \<le> fl_pow ieee_arith (fst (rs_uniform three_quarter_env
                (snd (rs_normal three_quarter_env (length ?c) 0))))
              (fl_div ieee_arith 1 (real (length ?c)))"
    unfolding pw by simp
  have pw1: "fl_pow ieee_arith (fst (rs_uniform three_quarter_env
                (snd (rs_normal three_quarter_env (length ?c) 0))))
              (fl_div ieee_arith 1 (real (length ?c))) \<le> 1"
    unfolding pw by simp
  have fl: "fl_ok ieee_arith (1 / 2 ^ 53) (1 / 2 ^ 1075) double_max" by (rule fl_ok_ieee)
  have reach: "rounded_reach (1 / 2 ^ 53) (1 / 2 ^ 1075) 0 (3 / 2) (norm2 ?c) \<le> double_max"
    by (rule reach_at_input)
  from make_geometric_sample_in_rounded_ball
         [OF generator_ok_three_quarter fl r nz g0 g1 nrm pw0 pw1 reach]
  have main: "\<exists>p. make_geometric_sample_fl ieee_arith three_quarter_env (NdRow ?c) (3 / 2) 0 =
          Inr (map Fin p) \<and>
        length p = length ?c \<and>
        norm2 (vsub p ?c) \<le>
          rounded_radius (1 / 2 ^ 53) (1 / 2 ^ 1075) 0 (length ?c) (3 / 2) (norm2 ?c)" .
  show ?thesis
    by (intro conjI; fact generator_ok_three_quarter fl r nz nrm pw reach main)
qed

subsection \<open>Radius zero\<close>

text \<open>
  With radius 0 the sampler does not return the center for every generator state: when the
  normal draw is the zero vector, the normalisation is \<^verbatim>\<open>0.0 / 0.0\<close> and the returned
  point is \<^verbatim>\<open>nan\<close>, although the generator keeps its contract.
\<close>

theorem zero_radius_counterexample:
  "generator_ok zero_draw_env \<and>
   make_geometric_sample zero_draw_env (NdRow [1]) 0 0 = Inr [NaN] \<and>
   make_geometric_sample zero_draw_env (NdRow [1]) 0 0 \<noteq> Inr (map Fin [1])"
  using generator_ok_zero_draw
  by (simp add: make_geometric_sample_def zero_draw_env_def counter_env_def row_size_def
        row_add_def norm2_def Let_def)

text \<open>
  Claim C2, amended. For a numpy center vector and a generator that keeps numpy's contract,
  if the drawn standard-normal vector has a nonzero component then the sampler called with
  radius 0 returns the center exactly.
\<close>

theorem zero_radius_returns_center:
  assumes ok: "generator_ok E"
      and nz: "\<exists>z \<in> set (fst (rs_normal E (length c) g)). z \<noteq> 0"
  shows "make_geometric_sample E (NdRow c) 0 g = Inr (map Fin c)"
proof -
  obtain zs g1 where n: "rs_normal E (length c) g = (zs, g1)" by (cases "rs_normal E (length c) g")
  obtain u g2 where u: "rs_uniform E g1 = (u, g2)" by (cases "rs_uniform E g1")
  from ok n have len: "length zs = length c"
    unfolding generator_ok_def by (metis fst_conv)
  from nz n have z: "norm2 zs \<noteq> 0" by (simp add: norm2_zero_iff)
  from nz n len have c: "c \<noteq> []" by auto
  have "map2 (\<lambda>x y. x + y) c (map (\<lambda>z. 0) zs) = c"
    using len by (induction c zs rule: list_induct2') auto
  with sample_dense_value [OF n u c z, of 0] show ?thesis by simp
qed

theorem zero_radius_returns_center_witness:
  "generator_ok counter_env \<and>
   (\<exists>z \<in> set (fst (rs_normal counter_env (length [3::real, 5]) 0)). z \<noteq> 0) \<and>
   make_geometric_sample counter_env (NdRow [3, 5]) 0 0 = Inr (map Fin [3, 5])"
proof -
  have nz: "\<exists>z \<in> set (fst (rs_normal counter_env (length [3::real, 5]) 0)). z \<noteq> 0"
    by (simp add: counter_env_def)
  from zero_radius_returns_center [OF generator_ok_counter nz] generator_ok_counter nz
  show ?thesis by simp
qed

section \<open>The batch generator\<close>

lemma fill_rows_length:
  "fill_rows E X radii items X_new = Inr X' \<Longrightarrow> length X' = length X_new"
proof (induction items arbitrary: X_new)
  case Nil
  then show ?case by simp
next
  case (Cons it items)
  obtain row_ind row col rs where it: "it = (row_ind, row, col, rs)" by (cases it)
  from Cons.prems it obtain s where
    "fill_rows E X radii items (X_new[row_ind := s]) = Inr X'"
    by (auto split: sum.splits)
  from Cons.IH [OF this] show ?case by simp
qed

lemma fill_rows_enumerate:
  assumes "fill_rows E X radii (enumerate m ts) X_new = Inr X'"
      and "m + length ts \<le> length X_new"
  shows "(\<forall>j < length ts.
            \<exists>center radius.
              getrow X (fst (ts ! j)) = Inr center \<and>
              getitem2 radii (fst (ts ! j)) (fst (snd (ts ! j))) = Inr radius \<and>
              make_geometric_sample E center radius (snd (snd (ts ! j))) = Inr (X' ! (m + j))) \<and>
         (\<forall>i < m. X' ! i = X_new ! i)"
  using assms
proof (induction ts arbitrary: m X_new)
  case Nil
  then show ?case by simp
next
  case (Cons t ts)
  obtain row col rs where t: "t = (row, col, rs)" by (cases t)
  from Cons.prems(1) t obtain center radius s where
      c: "getrow X row = Inr center" and r: "getitem2 radii row col = Inr radius"
      and s: "make_geometric_sample E center radius rs = Inr s"
      and rest: "fill_rows E X radii (enumerate (Suc m) ts) (X_new[m := s]) = Inr X'"
    by (auto split: sum.splits)
  from Cons.prems(2) have len: "Suc m + length ts \<le> length (X_new[m := s])" by simp
  note IH = Cons.IH [OF rest len]
  from IH have keep: "\<forall>i < Suc m. X' ! i = X_new[m := s] ! i" by blast
  from Cons.prems(2) have m: "m < length X_new" by simp
  from keep m have head: "X' ! m = s" by simp
  have tail: "\<forall>i < m. X' ! i = X_new ! i" using keep by simp
  show ?case
  proof (intro conjI allI impI)
    fix j assume j: "j < length (t # ts)"
    show "\<exists>center radius.
            getrow X (fst ((t # ts) ! j)) = Inr center \<and>
            getitem2 radii (fst ((t # ts) ! j)) (fst (snd ((t # ts) ! j))) = Inr radius \<and>
            make_geometric_sample E center radius (snd (snd ((t # ts) ! j))) =
              Inr (X' ! (m + j))"
    proof (cases j)
      case 0
      with c r s head t show ?thesis by simp
    next
      case (Suc j')
      with j have "j' < length ts" by simp
      with IH Suc show ?thesis by simp
    qed
  next
    fix i assume "i < m"
    with tail show "X' ! i = X_new ! i" by simp
  qed
qed

lemma sample_dense_returns:
  "c \<noteq> [] \<Longrightarrow> \<exists>s. make_geometric_sample E (NdRow c) radius g = Inr s"
  by (simp add: make_geometric_sample_def row_size_def row_add_def Let_def split: prod.splits)

lemma fill_rows_returns:
  assumes "\<forall>(row_ind, row, col, g) \<in> set items.
             row < length rs \<and> rs ! row \<noteq> [] \<and> row < length radii \<and> col < length (radii ! row)"
  shows "\<exists>X'. fill_rows E (Ndarray rs) radii items X_new = Inr X'"
  using assms
proof (induction items arbitrary: X_new)
  case Nil
  then show ?case by simp
next
  case (Cons it items)
  obtain row_ind row col g where it: "it = (row_ind, row, col, g)" by (cases it)
  from Cons.prems it have row: "row < length rs" "rs ! row \<noteq> []"
      and col: "row < length radii" "col < length (radii ! row)" by auto
  from sample_dense_returns [OF row(2), of E "radii ! row ! col" g] obtain s where
    s: "make_geometric_sample E (NdRow (rs ! row)) (radii ! row ! col) g = Inr s" by blast
  from Cons.prems have "\<forall>(row_ind, row, col, g) \<in> set items.
             row < length rs \<and> rs ! row \<noteq> [] \<and> row < length radii \<and> col < length (radii ! row)"
    by simp
  from Cons.IH [OF this, of "X_new[row_ind := s]"] it row col s
  show ?case by (simp add: getrow_def getitem2_def)
qed

lemma randint_length:
  "generator_ok E \<Longrightarrow> 0 < h \<Longrightarrow> rs_randint E h n g = (idx, g') \<Longrightarrow> length idx = n"
  unfolding generator_ok_def by (metis fst_conv)

lemma randint_range:
  "generator_ok E \<Longrightarrow> 0 < h \<Longrightarrow> rs_randint E h n g = (idx, g') \<Longrightarrow> i \<in> set idx \<Longrightarrow> i < h"
  unfolding generator_ok_def by (metis fst_conv)

lemma sub_states_length:
  "sub_states_ok E \<Longrightarrow> sub_states E g n = (sts, g') \<Longrightarrow> length sts = n"
  unfolding sub_states_ok_def by (metis fst_conv)

lemma samples_unfold:
  assumes "sub_states E g N = (sts, g1)" and "concat radii \<noteq> []"
      and "rs_randint E (length (concat radii)) N g1 = (idx, g2)"
  shows "make_geometric_samples E X c radii N g =
           (case fill_rows E X radii
                   (enumerate 0 (zip (decode_rows (shape1 radii) idx)
                                   (zip (decode_cols (shape1 radii) idx) sts)))
                   (zeros N (shape1 (rows_of X))) of
              Inl e \<Rightarrow> (Inl e, g2)
            | Inr X_filled \<Rightarrow> (Inr (Ndarray X_filled, replicate (length idx) c), g2))"
  using assms by (auto simp: make_geometric_samples_def Let_def)

lemma samples_shape:
  assumes ok: "generator_ok E" and ne: "concat radii \<noteq> []"
      and ret: "make_geometric_samples E X c radii N g = (Inr (X_new, y_new), g')"
  shows "\<exists>B. X_new = Ndarray B \<and> length B = N \<and> y_new = replicate N c"
proof -
  obtain sts g1 where s: "sub_states E g N = (sts, g1)" by (cases "sub_states E g N")
  obtain idx g2 where i: "rs_randint E (length (concat radii)) N g1 = (idx, g2)"
    by (cases "rs_randint E (length (concat radii)) N g1")
  from ne have h: "0 < length (concat radii)" by simp
  from randint_length [OF ok h i] have li: "length idx = N" .
  from ret obtain B where
      f: "fill_rows E X radii
            (enumerate 0 (zip (decode_rows (shape1 radii) idx)
                            (zip (decode_cols (shape1 radii) idx) sts)))
            (zeros N (shape1 (rows_of X))) = Inr B"
      and X: "X_new = Ndarray B" and y: "y_new = replicate (length idx) c"
    unfolding samples_unfold [OF s ne i] by (auto split: sum.splits)
  from fill_rows_length [OF f] have "length B = N" by (simp add: zeros_def)
  with X y li show ?thesis by simp
qed

lemma length_concat_rect:
  "\<forall>r \<in> set rs. length r = k \<Longrightarrow> length (concat rs) = length rs * k"
  by (induction rs) simp_all

lemma decoded_items:
  assumes "(ri, row, col, st) \<in> set (enumerate m (zip (decode_rows k idx) (zip (decode_cols k idx) sts)))"
  shows "\<exists>i \<in> set idx. row = i div k \<and> col = i mod k"
proof -
  from assms have "(row, col, st) \<in>
      snd ` set (enumerate m (zip (decode_rows k idx) (zip (decode_cols k idx) sts)))"
    by force
  then have "(row, col, st) \<in> set (zip (decode_rows k idx) (zip (decode_cols k idx) sts))"
    by (simp only: set_map [symmetric] map_snd_enumerate)
  then obtain j where j: "j < length idx" "row = decode_rows k idx ! j"
      "col = decode_cols k idx ! j"
    by (auto simp: in_set_zip decode_rows_def decode_cols_def)
  then have "row = idx ! j div k" "col = idx ! j mod k"
    by (simp_all add: decode_rows_def decode_cols_def)
  with j(1) show ?thesis by (metis nth_mem)
qed

subsection \<open>A concrete batch\<close>

lemma sub_states_ok_counter: "sub_states_ok counter_env"
  by (simp add: sub_states_ok_def counter_env_def)

lemma counter_sample:
  "make_geometric_sample counter_env (NdRow [x]) r g = Inr [Fin (x + r * (1 / 4))]"
  by (simp add: make_geometric_sample_def counter_env_def row_size_def row_add_def norm2_def
        Let_def)

lemma upt6: "[0..<6] = [0, 1, 2, 3, 4, 5::nat]"
  by code_simp

lemma demo_sub_states:
  "sub_states counter_env 0 6 = ([0, 1, 2, 3, 4, 5], 6)"
    by (simp add: counter_env_def upt6)
lemma demo_randint:
  "rs_randint counter_env (length (concat demo_radii)) 6 6 = ([0, 1, 2, 3, 4, 5], 12)"
    by (simp add: counter_env_def demo_radii_def upt6)

lemma demo_zeros:
  "zeros 6 (shape1 (rows_of demo_X)) = [[Fin 0], [Fin 0], [Fin 0], [Fin 0], [Fin 0], [Fin 0]]"
  by (simp add: zeros_def demo_X_def rows_of_def shape1_def numeral_eq_Suc)

lemma demo_items:
  "enumerate 0 (zip (decode_rows (shape1 demo_radii) [0, 1, 2, 3, 4, 5])
                  (zip (decode_cols (shape1 demo_radii) [0, 1, 2, 3, 4, 5]) [0, 1, 2, 3, 4, 5::nat])) =
   [(0, 0, 0, 0), (Suc 0, 0, 1, 1), (Suc (Suc 0), 1, 0, 2), (Suc (Suc (Suc 0)), 1, 1, 3),
    (Suc (Suc (Suc (Suc 0))), 2, 0, 4), (Suc (Suc (Suc (Suc (Suc 0)))), 2, 1, 5)]"
proof -
  have k: "shape1 demo_radii = 2" by (simp add: demo_radii_def shape1_def)
  show ?thesis unfolding k by (simp add: decode_rows_def decode_cols_def)
qed

lemma demo_getrow:
  "getrow demo_X 0 = Inr (NdRow [0])" "getrow demo_X (Suc 0) = Inr (NdRow [10])"
  "getrow demo_X 2 = Inr (NdRow [20])"
  by (simp_all add: getrow_def demo_X_def)

lemma demo_getitem2:
  "getitem2 demo_radii 0 0 = Inr 1" "getitem2 demo_radii 0 (Suc 0) = Inr 2"
  "getitem2 demo_radii (Suc 0) 0 = Inr 3" "getitem2 demo_radii (Suc 0) (Suc 0) = Inr 4"
  "getitem2 demo_radii 2 0 = Inr 5" "getitem2 demo_radii 2 (Suc 0) = Inr 6"
  by (simp_all add: getitem2_def demo_radii_def)

lemma demo_batch:
  "make_geometric_samples counter_env demo_X (1::int) demo_radii 6 0 =
     (Inr (Ndarray [[Fin (1 / 4)], [Fin (1 / 2)], [Fin (43 / 4)], [Fin 11], [Fin (85 / 4)],
                    [Fin (43 / 2)]],
           [1, 1, 1, 1, 1, 1]), 12)"
proof -
  have ne: "concat demo_radii \<noteq> []" by (simp add: demo_radii_def)
  show ?thesis
    unfolding samples_unfold [OF demo_sub_states ne demo_randint] demo_items demo_zeros
    by (simp add: demo_getrow demo_getitem2 counter_sample)
qed

subsection \<open>Row and label counts, and the order of the rows\<close>

lemma samples_rows_in_draw_order:
  assumes ok: "generator_ok E"
      and ret: "make_geometric_samples E X c radii N g = (Inr (X_new, y_new), g')"
      and j: "j < N" "j < length (draw_states E N g)"
  shows "\<exists>center radius.
           getrow X (drawn_indices E radii N g ! j div shape1 radii) = Inr center \<and>
           getitem2 radii (drawn_indices E radii N g ! j div shape1 radii)
                          (drawn_indices E radii N g ! j mod shape1 radii) = Inr radius \<and>
           make_geometric_sample E center radius (draw_states E N g ! j) =
             Inr (rows_of X_new ! j)"
proof -
  obtain sts g1 where s: "sub_states E g N = (sts, g1)" by (cases "sub_states E g N")
  obtain idx g2 where i: "rs_randint E (length (concat radii)) N g1 = (idx, g2)"
    by (cases "rs_randint E (length (concat radii)) N g1")
  from ret s have ne: "concat radii \<noteq> []"
    by (auto simp: make_geometric_samples_def Let_def split: if_splits)
  then have h: "0 < length (concat radii)" by simp
  from randint_length [OF ok h i] have li: "length idx = N" .
  have di: "drawn_indices E radii N g = idx" by (simp add: drawn_indices_def s i)
  have ds: "draw_states E N g = sts" by (simp add: draw_states_def s)
  from j ds have js: "j < length sts" by simp
  define k where "k = shape1 radii"
  define ts where "ts = zip (decode_rows k idx) (zip (decode_cols k idx) sts)"
  have lt: "length ts = min N (length sts)"
    by (simp add: ts_def decode_rows_def decode_cols_def li)
  from ret obtain B where
      f: "fill_rows E X radii (enumerate 0 ts) (zeros N (shape1 (rows_of X))) = Inr B"
      and X: "X_new = Ndarray B"
    unfolding samples_unfold [OF s ne i] ts_def k_def by (auto split: sum.splits)
  have "0 + length ts \<le> length (zeros N (shape1 (rows_of X)))" by (simp add: lt zeros_def)
  from fill_rows_enumerate [OF f this] have anch: "\<forall>j < length ts.
            \<exists>center radius.
              getrow X (fst (ts ! j)) = Inr center \<and>
              getitem2 radii (fst (ts ! j)) (fst (snd (ts ! j))) = Inr radius \<and>
              make_geometric_sample E center radius (snd (snd (ts ! j))) = Inr (B ! (0 + j))"
    by blast
  have nth: "ts ! j = (idx ! j div k, idx ! j mod k, sts ! j)"
    using j js by (simp add: ts_def decode_rows_def decode_cols_def li)
  from j js lt have "j < length ts" by simp
  with anch obtain center radius where
      "getrow X (fst (ts ! j)) = Inr center"
      "getitem2 radii (fst (ts ! j)) (fst (snd (ts ! j))) = Inr radius"
      "make_geometric_sample E center radius (snd (snd (ts ! j))) = Inr (B ! (0 + j))"
    by blast
  with nth show ?thesis by (simp add: di ds X rows_of_def k_def)
qed

text \<open>
  Claim C4. For a generator that keeps numpy's contract, a radius matrix with at least one
  entry and any \<open>N\<close>: whenever the batch generator returns, the feature batch has exactly
  \<open>N\<close> rows and the label vector has exactly \<open>N\<close> entries, each the target label, and the
  rows are in draw order: row \<open>j\<close> of the batch is the sampler's result for the \<open>j\<close>-th
  drawn index and the \<open>j\<close>-th sub-generator (for every \<open>j\<close> that has a sub-generator: the
  \<^verbatim>\<open>zip\<close> of line 61 stops with its shortest argument). The batch generator does return
  when \<open>X\<close> is a numpy array with at least one column and the radius matrix is rectangular
  and has one row per row of \<open>X\<close>.
\<close>

theorem make_geometric_samples_returns_n:
  assumes ok: "generator_ok E" and ne: "concat radii \<noteq> []"
  shows "(\<forall>X_new y_new g'.
            make_geometric_samples E X c radii N g = (Inr (X_new, y_new), g') \<longrightarrow>
            shape0 X_new = N \<and> length y_new = N \<and> (\<forall>l \<in> set y_new. l = c) \<and>
            (\<forall>j < N. j < length (draw_states E N g) \<longrightarrow>
               (\<exists>center radius.
                  getrow X (drawn_indices E radii N g ! j div shape1 radii) = Inr center \<and>
                  getitem2 radii (drawn_indices E radii N g ! j div shape1 radii)
                    (drawn_indices E radii N g ! j mod shape1 radii) = Inr radius \<and>
                  make_geometric_sample E center radius (draw_states E N g ! j) =
                    Inr (rows_of X_new ! j)))) \<and>
         (\<forall>rs. X = Ndarray rs \<and> length radii = length rs \<and> (\<forall>r \<in> set rs. r \<noteq> []) \<and>
               (\<forall>r \<in> set radii. length r = shape1 radii) \<longrightarrow>
            (\<exists>X_new y_new g'.
               make_geometric_samples E X c radii N g = (Inr (X_new, y_new), g')))"
proof (rule conjI; intro allI impI)
  fix X_new y_new g'
  assume ret: "make_geometric_samples E X c radii N g = (Inr (X_new, y_new), g')"
  from samples_shape [OF ok ne ret] obtain B where
    B: "X_new = Ndarray B" "length B = N" "y_new = replicate N c" by blast
  then have shape: "shape0 X_new = N" "length y_new = N" "\<forall>l \<in> set y_new. l = c"
    by (simp_all add: shape0_def rows_of_def)
  have order: "\<forall>j < N. j < length (draw_states E N g) \<longrightarrow>
               (\<exists>center radius.
                  getrow X (drawn_indices E radii N g ! j div shape1 radii) = Inr center \<and>
                  getitem2 radii (drawn_indices E radii N g ! j div shape1 radii)
                    (drawn_indices E radii N g ! j mod shape1 radii) = Inr radius \<and>
                  make_geometric_sample E center radius (draw_states E N g ! j) =
                    Inr (rows_of X_new ! j))"
    using samples_rows_in_draw_order [OF ok ret] by blast
  from shape order
  show "shape0 X_new = N \<and> length y_new = N \<and> (\<forall>l \<in> set y_new. l = c) \<and>
            (\<forall>j < N. j < length (draw_states E N g) \<longrightarrow>
               (\<exists>center radius.
                  getrow X (drawn_indices E radii N g ! j div shape1 radii) = Inr center \<and>
                  getitem2 radii (drawn_indices E radii N g ! j div shape1 radii)
                    (drawn_indices E radii N g ! j mod shape1 radii) = Inr radius \<and>
                  make_geometric_sample E center radius (draw_states E N g ! j) =
                    Inr (rows_of X_new ! j)))"
    by (intro conjI)
next
  fix rs
  assume wf: "X = Ndarray rs \<and> length radii = length rs \<and> (\<forall>r \<in> set rs. r \<noteq> []) \<and>
               (\<forall>r \<in> set radii. length r = shape1 radii)"
  define k where "k = shape1 radii"
  obtain sts g1 where s: "sub_states E g N = (sts, g1)" by (cases "sub_states E g N")
  obtain idx g2 where i: "rs_randint E (length (concat radii)) N g1 = (idx, g2)"
    by (cases "rs_randint E (length (concat radii)) N g1")
  from ne have h: "0 < length (concat radii)" by simp
  from wf have total: "length (concat radii) = length radii * k"
    unfolding k_def by (intro length_concat_rect) simp
  with h have kpos: "0 < k" by (cases k) simp_all
  have inrange: "\<forall>(row_ind, row, col, st) \<in>
          set (enumerate 0 (zip (decode_rows k idx) (zip (decode_cols k idx) sts))).
          row < length rs \<and> rs ! row \<noteq> [] \<and> row < length radii \<and> col < length (radii ! row)"
  proof (clarify)
    fix row_ind row col st
    assume "(row_ind, row, col, st) \<in>
          set (enumerate 0 (zip (decode_rows k idx) (zip (decode_cols k idx) sts)))"
    from decoded_items [OF this] obtain j where
      j: "j \<in> set idx" "row = j div k" "col = j mod k" by blast
    from randint_range [OF ok h i j(1)] total have "j < length radii * k" by simp
    with j(2) kpos have row: "row < length radii"
      by (simp add: less_mult_imp_div_less)
    from j(3) kpos have "col < k" by simp
    moreover from row wf have "length (radii ! row) = k" by (simp add: k_def)
    ultimately show "row < length rs \<and> rs ! row \<noteq> [] \<and> row < length radii \<and>
        col < length (radii ! row)"
      using row wf by simp
  qed
  from fill_rows_returns [OF inrange] obtain B where
    "fill_rows E (Ndarray rs) radii
       (enumerate 0 (zip (decode_rows k idx) (zip (decode_cols k idx) sts)))
       (zeros N (shape1 (rows_of X))) = Inr B" by blast
  with wf show "\<exists>X_new y_new g'.
      make_geometric_samples E X c radii N g = (Inr (X_new, y_new), g')"
    unfolding samples_unfold [OF s ne i] by (simp add: k_def)
qed

theorem make_geometric_samples_returns_n_witness:
  "generator_ok counter_env \<and> concat demo_radii \<noteq> [] \<and>
   make_geometric_samples counter_env demo_X (1::int) demo_radii 6 0 =
     (Inr (Ndarray [[Fin (1 / 4)], [Fin (1 / 2)], [Fin (43 / 4)], [Fin 11], [Fin (85 / 4)],
                    [Fin (43 / 2)]],
           [1, 1, 1, 1, 1, 1]), 12) \<and>
   shape0 (Ndarray [[Fin (1 / 4)], [Fin (1 / 2)], [Fin (43 / 4)], [Fin 11], [Fin (85 / 4)],
                    [Fin (43 / 2)]]) = 6 \<and>
   length [1, 1, 1, 1, 1, 1::int] = 6 \<and>
   drawn_indices counter_env demo_radii 6 0 = [0, 1, 2, 3, 4, 5] \<and>
   draw_states counter_env 6 0 = [0, 1, 2, 3, 4, 5] \<and>
   (\<exists>center radius.
      getrow demo_X (1 div 2) = Inr center \<and> getitem2 demo_radii (1 div 2) (1 mod 2) = Inr radius \<and>
      make_geometric_sample counter_env center radius 1 = Inr [Fin (1 / 2)]) \<and>
   (\<exists>center radius.
      getrow demo_X (4 div 2) = Inr center \<and> getitem2 demo_radii (4 div 2) (4 mod 2) = Inr radius \<and>
      make_geometric_sample counter_env center radius 4 = Inr [Fin (85 / 4)])"
proof -
  have g: "generator_ok counter_env" by (rule generator_ok_counter)
  have ne: "concat demo_radii \<noteq> []" by (simp add: demo_radii_def)
  have b: "make_geometric_samples counter_env demo_X (1::int) demo_radii 6 0 =
     (Inr (Ndarray [[Fin (1 / 4)], [Fin (1 / 2)], [Fin (43 / 4)], [Fin 11], [Fin (85 / 4)],
                    [Fin (43 / 2)]],
           [1, 1, 1, 1, 1, 1]), 12)" by (rule demo_batch)
  have d: "drawn_indices counter_env demo_radii 6 0 = [0, 1, 2, 3, 4, 5]"
    by (simp add: drawn_indices_def demo_sub_states demo_randint)
  have ds: "draw_states counter_env 6 0 = [0, 1, 2, 3, 4, 5]"
    by (simp add: draw_states_def demo_sub_states)
  have k: "shape1 demo_radii = 2" by (simp add: demo_radii_def shape1_def)
  note T = make_geometric_samples_returns_n [OF g ne, where X = demo_X and c = "1::int" and
      N = 6 and g = 0, THEN conjunct1, rule_format, OF b]
  have s0: "shape0 (Ndarray [[Fin (1 / 4)], [Fin (1 / 2)], [Fin (43 / 4)], [Fin 11],
                [Fin (85 / 4)], [Fin (43 / 2)]]) = 6"
    using T by (elim conjE)
  have l0: "length [1, 1, 1, 1, 1, 1::int] = 6"
    using T by (elim conjE)
  have ord: "\<And>j. j < 6 \<Longrightarrow> j < length (draw_states counter_env 6 0) \<Longrightarrow>
      \<exists>center radius.
        getrow demo_X (drawn_indices counter_env demo_radii 6 0 ! j div shape1 demo_radii) =
          Inr center \<and>
        getitem2 demo_radii (drawn_indices counter_env demo_radii 6 0 ! j div shape1 demo_radii)
          (drawn_indices counter_env demo_radii 6 0 ! j mod shape1 demo_radii) = Inr radius \<and>
        make_geometric_sample counter_env center radius (draw_states counter_env 6 0 ! j) =
          Inr (rows_of (Ndarray [[Fin (1 / 4)], [Fin (1 / 2)], [Fin (43 / 4)], [Fin 11],
                [Fin (85 / 4)], [Fin (43 / 2)]]) ! j)"
    using T by blast
  have n1: "[0, 1, 2, 3, 4, 5::nat] ! 1 = 1" by simp
  have n4: "[0, 1, 2, 3, 4, 5::nat] ! 4 = 4" by (simp add: numeral_eq_Suc)
  have r1: "[[Fin (1 / 4)], [Fin (1 / 2)], [Fin (43 / 4)], [Fin 11], [Fin (85 / 4)],
             [Fin (43 / 2)]] ! 1 = [Fin (1 / 2)]" by simp
  have r4: "[[Fin (1 / 4)], [Fin (1 / 2)], [Fin (43 / 4)], [Fin 11], [Fin (85 / 4)],
             [Fin (43 / 2)]] ! 4 = [Fin (85 / 4)]" by (simp add: numeral_eq_Suc)
  have a1: "\<exists>center radius.
      getrow demo_X (1 div 2) = Inr center \<and> getitem2 demo_radii (1 div 2) (1 mod 2) = Inr radius \<and>
      make_geometric_sample counter_env center radius 1 = Inr [Fin (1 / 2)]"
    using ord [of 1] unfolding d ds k n1 rows_of_def matrix.case r1 by simp
  have a4: "\<exists>center radius.
      getrow demo_X (4 div 2) = Inr center \<and> getitem2 demo_radii (4 div 2) (4 mod 2) = Inr radius \<and>
      make_geometric_sample counter_env center radius 4 = Inr [Fin (85 / 4)]"
    using ord [of 4] unfolding d ds k n4 rows_of_def matrix.case r4 by simp
  show ?thesis by (intro conjI; fact)
qed

subsection \<open>Decoding the drawn indices\<close>

text \<open>
  Claim C3. When the batch generator returns, row \<open>j\<close> of the batch is the sampler's result
  for the center \<open>X[i div k]\<close> (the selected point itself) and the radius
  \<open>radii[i div k, i mod k]\<close>, where \<open>i\<close> is the \<open>j\<close>-th drawn flat index and \<open>k\<close> the number
  of columns of the radius matrix, drawn with the \<open>j\<close>-th sub-generator. For \<open>k = 2\<close> the
  indices 0 to 5 decode to (0,0), (0,1), (1,0), (1,1), (2,0), (2,1).
\<close>

theorem samples_anchored_at_decoded_point:
  assumes ok: "generator_ok E" and sub: "sub_states_ok E"
      and ret: "make_geometric_samples E X c radii N g = (Inr (X_new, y_new), g')"
  shows "(\<forall>j < N.
           \<exists>center radius.
             getrow X (drawn_indices E radii N g ! j div shape1 radii) = Inr center \<and>
             getitem2 radii (drawn_indices E radii N g ! j div shape1 radii)
                            (drawn_indices E radii N g ! j mod shape1 radii) = Inr radius \<and>
             make_geometric_sample E center radius (draw_states E N g ! j) =
               Inr (rows_of X_new ! j)) \<and>
         zip (decode_rows 2 [0, 1, 2, 3, 4, 5]) (decode_cols 2 [0, 1, 2, 3, 4, 5]) =
           [(0, 0), (0, 1), (1, 0), (1, 1), (2, 0), (2, 1)]"
proof
  obtain sts g1 where s: "sub_states E g N = (sts, g1)" by (cases "sub_states E g N")
  obtain idx g2 where i: "rs_randint E (length (concat radii)) N g1 = (idx, g2)"
    by (cases "rs_randint E (length (concat radii)) N g1")
  from ret s have ne: "concat radii \<noteq> []"
    by (auto simp: make_geometric_samples_def Let_def split: if_splits)
  then have h: "0 < length (concat radii)" by simp
  from randint_length [OF ok h i] have li: "length idx = N" .
  from sub_states_length [OF sub s] have ls: "length sts = N" .
  define k where "k = shape1 radii"
  define ts where "ts = zip (decode_rows k idx) (zip (decode_cols k idx) sts)"
  have lt: "length ts = N" by (simp add: ts_def decode_rows_def decode_cols_def li ls)
  from ret obtain B where
      f: "fill_rows E X radii (enumerate 0 ts) (zeros N (shape1 (rows_of X))) = Inr B"
      and X: "X_new = Ndarray B"
    unfolding samples_unfold [OF s ne i] ts_def k_def by (auto split: sum.splits)
  have "0 + length ts \<le> length (zeros N (shape1 (rows_of X)))" by (simp add: lt zeros_def)
  from fill_rows_enumerate [OF f this] have anch: "\<forall>j < length ts.
            \<exists>center radius.
              getrow X (fst (ts ! j)) = Inr center \<and>
              getitem2 radii (fst (ts ! j)) (fst (snd (ts ! j))) = Inr radius \<and>
              make_geometric_sample E center radius (snd (snd (ts ! j))) = Inr (B ! (0 + j))"
    by blast
  have nth: "\<And>j. j < N \<Longrightarrow> ts ! j = (idx ! j div k, idx ! j mod k, sts ! j)"
    by (simp add: ts_def decode_rows_def decode_cols_def li ls)
  have di: "drawn_indices E radii N g = idx" by (simp add: drawn_indices_def s i)
  have ds: "draw_states E N g = sts" by (simp add: draw_states_def s)
  show "\<forall>j < N.
           \<exists>center radius.
             getrow X (drawn_indices E radii N g ! j div shape1 radii) = Inr center \<and>
             getitem2 radii (drawn_indices E radii N g ! j div shape1 radii)
                            (drawn_indices E radii N g ! j mod shape1 radii) = Inr radius \<and>
             make_geometric_sample E center radius (draw_states E N g ! j) =
               Inr (rows_of X_new ! j)"
  proof (intro allI impI)
    fix j assume j: "j < N"
    from anch lt j obtain center radius where
        "getrow X (fst (ts ! j)) = Inr center"
        "getitem2 radii (fst (ts ! j)) (fst (snd (ts ! j))) = Inr radius"
        "make_geometric_sample E center radius (snd (snd (ts ! j))) = Inr (B ! (0 + j))"
      by blast
    with nth [OF j] show "\<exists>center radius.
             getrow X (drawn_indices E radii N g ! j div shape1 radii) = Inr center \<and>
             getitem2 radii (drawn_indices E radii N g ! j div shape1 radii)
                            (drawn_indices E radii N g ! j mod shape1 radii) = Inr radius \<and>
             make_geometric_sample E center radius (draw_states E N g ! j) =
               Inr (rows_of X_new ! j)"
      by (simp add: di ds X rows_of_def k_def)
  qed
next
  show "zip (decode_rows 2 [0, 1, 2, 3, 4, 5]) (decode_cols 2 [0, 1, 2, 3, 4, 5]) =
           [(0, 0), (0, 1), (1, 0), (1, 1), (2, 0), (2, 1)]"
    by (simp add: decode_rows_def decode_cols_def)
qed

theorem samples_anchored_at_decoded_point_witness:
  "generator_ok counter_env \<and> sub_states_ok counter_env \<and>
   make_geometric_samples counter_env demo_X (1::int) demo_radii 6 0 =
     (Inr (Ndarray [[Fin (1 / 4)], [Fin (1 / 2)], [Fin (43 / 4)], [Fin 11], [Fin (85 / 4)],
                    [Fin (43 / 2)]],
           [1, 1, 1, 1, 1, 1]), 12) \<and>
   drawn_indices counter_env demo_radii 6 0 = [0, 1, 2, 3, 4, 5] \<and>
   (\<exists>center radius.
      getrow demo_X (2 div 2) = Inr center \<and> getitem2 demo_radii (2 div 2) (2 mod 2) = Inr radius \<and>
      make_geometric_sample counter_env center radius 2 = Inr [Fin (43 / 4)]) \<and>
   (\<exists>center radius.
      getrow demo_X (5 div 2) = Inr center \<and> getitem2 demo_radii (5 div 2) (5 mod 2) = Inr radius \<and>
      make_geometric_sample counter_env center radius 5 = Inr [Fin (43 / 2)])"
proof -
  have g: "generator_ok counter_env" by (rule generator_ok_counter)
  have u: "sub_states_ok counter_env" by (rule sub_states_ok_counter)
  have b: "make_geometric_samples counter_env demo_X (1::int) demo_radii 6 0 =
     (Inr (Ndarray [[Fin (1 / 4)], [Fin (1 / 2)], [Fin (43 / 4)], [Fin 11], [Fin (85 / 4)],
                    [Fin (43 / 2)]],
           [1, 1, 1, 1, 1, 1]), 12)" by (rule demo_batch)
  have d: "drawn_indices counter_env demo_radii 6 0 = [0, 1, 2, 3, 4, 5]"
    by (simp add: drawn_indices_def demo_sub_states demo_randint)
  have ds: "draw_states counter_env 6 0 = [0, 1, 2, 3, 4, 5]"
    by (simp add: draw_states_def demo_sub_states)
  have k: "shape1 demo_radii = 2" by (simp add: demo_radii_def shape1_def)
  have n2: "[0, 1, 2, 3, 4, 5::nat] ! 2 = 2" by simp
  have n5: "[0, 1, 2, 3, 4, 5::nat] ! 5 = 5" by (simp add: numeral_eq_Suc)
  have r2: "[[Fin (1 / 4)], [Fin (1 / 2)], [Fin (43 / 4)], [Fin 11], [Fin (85 / 4)],
             [Fin (43 / 2)]] ! 2 = [Fin (43 / 4)]" by simp
  have r5: "[[Fin (1 / 4)], [Fin (1 / 2)], [Fin (43 / 4)], [Fin 11], [Fin (85 / 4)],
             [Fin (43 / 2)]] ! 5 = [Fin (43 / 2)]" by (simp add: numeral_eq_Suc)
  note T = samples_anchored_at_decoded_point [OF g u b, THEN conjunct1, rule_format]
  have a2: "\<exists>center radius.
      getrow demo_X (2 div 2) = Inr center \<and> getitem2 demo_radii (2 div 2) (2 mod 2) = Inr radius \<and>
      make_geometric_sample counter_env center radius 2 = Inr [Fin (43 / 4)]"
    using T [of 2] unfolding d ds k n2 rows_of_def matrix.case r2 by simp
  have a5: "\<exists>center radius.
      getrow demo_X (5 div 2) = Inr center \<and> getitem2 demo_radii (5 div 2) (5 mod 2) = Inr radius \<and>
      make_geometric_sample counter_env center radius 5 = Inr [Fin (43 / 2)]"
    using T [of 5] unfolding d ds k n5 rows_of_def matrix.case r5 by simp
  show ?thesis by (intro conjI; fact)
qed

section \<open>The resampling pass\<close>

subsection \<open>Setup and skipped classes\<close>

lemma validate_valid:
  "self_kind self \<in> set GEOMETRIC_SMOTE_KIND \<Longrightarrow>
   validate_estimator self =
     Inr (if self_kind self \<in> {''minority'', ''regular''}
          then Some (self_k_neighbors self + 1) else None,
          if self_kind self \<in> {''majority'', ''regular''} then Some 1 else None)"
  by (simp add: validate_estimator_def)

lemma sample_loop_skip_zero:
  "sample_loop E self nns X y ratio X_res y_res st =
   sample_loop E self nns X y (filter (\<lambda>(c, n). n \<noteq> 0) ratio) X_res y_res st"
proof (induction ratio arbitrary: X_res y_res st)
  case Nil
  show ?case by simp
next
  case (Cons item ratio)
  obtain c n where item: "item = (c, n)" by (cases item)
  show ?case
  proof (cases "n = 0")
    case True
    with item Cons.IH show ?thesis by simp
  next
    case False
    with item Cons.IH show ?thesis
      by (simp split: prod.splits sum.splits)
  qed
qed

lemma sample_loop_all_zero:
  "\<forall>(c, n) \<in> set ratio. n = 0 \<Longrightarrow>
   sample_loop E self nns X y ratio X_res y_res st = (Inr (X_res, y_res), st)"
  by (induction ratio) auto

subsection \<open>What a pass for one class returns\<close>

lemma samples_dense:
  assumes "make_geometric_samples E X c radii N g = (Inr (X_new, y_new), g')"
  shows "\<exists>B. X_new = Ndarray B" and "concat radii \<noteq> []"
  using assms
  by (auto simp: make_geometric_samples_def Let_def split: if_splits prod.splits sum.splits)

lemma radius_pass_cases:
  assumes "radius_pass E self nn X_fit X_pos c n st = (Inr (X_new, y_new), st')"
  obtains k radii g' where "nn = Some k" "kneighbors E k X_fit X_pos = Inr radii"
    "make_geometric_samples E X_pos c radii n
       (check_random_state E (self_random_state self) (st\<lparr>fits := fits st @ [(k, X_fit)]\<rparr>)) =
     (Inr (X_new, y_new), g')"
    "st' = put_generator (self_random_state self) g' (st\<lparr>fits := fits st @ [(k, X_fit)]\<rparr>)"
  using assms
  by (auto simp: radius_pass_def Let_def split: option.splits sum.splits prod.splits)

lemma class_batch_cases:
  assumes "class_batch E self nns X y c n st = (Inr (X_new, y_new), st')"
  obtains nn X_fit X_pos st0 where
    "radius_pass E self nn X_fit X_pos c n st0 = (Inr (X_new, y_new), st')"
  using assms
  unfolding class_batch_def
  by (auto split: sum.splits prod.splits if_splits option.splits)

lemma class_batch_shape:
  assumes ok: "generator_ok E"
      and ret: "class_batch E self nns X y c n st = (Inr (X_new, y_new), st')"
  shows "\<exists>B. X_new = Ndarray B \<and> length B = n \<and> y_new = replicate n c"
proof -
  from ret obtain nn X_fit X_pos st0 where
    "radius_pass E self nn X_fit X_pos c n st0 = (Inr (X_new, y_new), st')"
    by (rule class_batch_cases)
  then obtain radii g g' where
    m: "make_geometric_samples E X_pos c radii n g = (Inr (X_new, y_new), g')"
    by (rule radius_pass_cases)
  from samples_dense(2) [OF m] have ne: "concat radii \<noteq> []" .
  from samples_shape [OF ok ne m] show ?thesis .
qed

lemma class_batch_dense:
  assumes "class_batch E self nns X y c n st = (Inr (X_new, y_new), st')"
  shows "\<exists>B. X_new = Ndarray B"
proof -
  from assms obtain nn X_fit X_pos st0 where
    "radius_pass E self nn X_fit X_pos c n st0 = (Inr (X_new, y_new), st')"
    by (rule class_batch_cases)
  then obtain radii g g' where
    "make_geometric_samples E X_pos c radii n g = (Inr (X_new, y_new), g')"
    by (rule radius_pass_cases)
  from samples_dense(1) [OF this] show ?thesis .
qed

lemma sample_loop_appends:
  assumes ok: "generator_ok E"
      and ret: "sample_loop E self nns X y ratio (Ndarray A) y_res st = (Inr (X_out, y_out), st')"
  shows "\<exists>B. X_out = Ndarray (A @ B) \<and> y_out = y_res @ synthetic_labels ratio \<and>
             length B = length (synthetic_labels ratio)"
  using ret
proof (induction ratio arbitrary: A y_res st)
  case Nil
  then show ?case by (simp add: synthetic_labels_def)
next
  case (Cons item ratio)
  obtain c n where item: "item = (c, n)" by (cases item)
  show ?case
  proof (cases "n = 0")
    case True
    with Cons.prems item have "sample_loop E self nns X y ratio (Ndarray A) y_res st =
        (Inr (X_out, y_out), st')" by simp
    from Cons.IH [OF this] True item show ?thesis by (simp add: synthetic_labels_def)
  next
    case False
    with Cons.prems item obtain X_new y_new st1 X_stacked where
        cb: "class_batch E self nns X y c n st = (Inr (X_new, y_new), st1)"
        and sb: "stack_batch E (Ndarray A) X_new = Inr X_stacked"
        and rest: "sample_loop E self nns X y ratio X_stacked (y_res @ y_new) st1 =
                     (Inr (X_out, y_out), st')"
      by (auto split: prod.splits sum.splits)
    from class_batch_shape [OF ok cb] obtain B0 where
      B0: "X_new = Ndarray B0" "length B0 = n" "y_new = replicate n c" by blast
    from sb B0 have st: "X_stacked = Ndarray (A @ B0)"
      by (simp add: stack_batch_def issparse_def rows_of_def)
    from Cons.IH [OF rest [unfolded st]] obtain B where
      B: "X_out = Ndarray ((A @ B0) @ B)" "y_out = (y_res @ y_new) @ synthetic_labels ratio"
         "length B = length (synthetic_labels ratio)" by blast
    have "X_out = Ndarray (A @ (B0 @ B))" using B(1) by simp
    moreover have "y_out = y_res @ synthetic_labels (item # ratio)"
      using B(2) B0(3) item by (simp add: synthetic_labels_def)
    moreover have "length (B0 @ B) = length (synthetic_labels (item # ratio))"
      using B(3) B0(2) item by (simp add: synthetic_labels_def)
    ultimately show ?thesis by blast
  qed
qed

subsection \<open>Runs from a seed\<close>

lemma radius_pass_seeded:
  assumes "self_random_state self = RS_Seed s"
  shows "fst (radius_pass E self nn X_fit X_pos c n st1) =
         fst (radius_pass E self nn X_fit X_pos c n st2)"
  using assms
  by (simp add: radius_pass_def check_random_state_def Let_def
        split: option.splits sum.splits prod.splits)

lemma class_batch_seeded:
  assumes seed: "self_random_state self = RS_Seed s"
  shows "fst (class_batch E self nns X y c n st1) = fst (class_batch E self nns X y c n st2)"
proof -
  have p: "\<And>nn X_fit X_pos st r st'. radius_pass E self nn X_fit X_pos c n st = (r, st') \<Longrightarrow>
             fst (radius_pass E self nn X_fit X_pos c n st1) = r"
    using radius_pass_seeded [OF seed] by (metis fst_conv)
  show ?thesis
    unfolding class_batch_def
    by (auto split: sum.splits prod.splits option.splits dest!: p)
qed

lemma sample_loop_seeded:
  assumes seed: "self_random_state self = RS_Seed s"
  shows "fst (sample_loop E self nns X y ratio X_res y_res st1) =
         fst (sample_loop E self nns X y ratio X_res y_res st2)"
proof (induction ratio arbitrary: X_res y_res st1 st2)
  case Nil
  show ?case by simp
next
  case (Cons item ratio)
  obtain c n where item: "item = (c, n)" by (cases item)
  obtain r1 t1 where c1: "class_batch E self nns X y c n st1 = (r1, t1)"
    by (cases "class_batch E self nns X y c n st1")
  obtain r2 t2 where c2: "class_batch E self nns X y c n st2 = (r2, t2)"
    by (cases "class_batch E self nns X y c n st2")
  from class_batch_seeded [OF seed, of E nns X y c n st1 st2] c1 c2 have r: "r2 = r1" by simp
  show ?case
  proof (cases "n = 0")
    case True
    with item Cons.IH show ?thesis by simp
  next
    case False
    show ?thesis
    proof (cases r1)
      case (Inl e)
      with False item c1 c2 r show ?thesis by simp
    next
      case (Inr new)
      obtain X_new y_new where new: "new = (X_new, y_new)" by (cases new)
      show ?thesis
      proof (cases "stack_batch E X_res X_new")
        case (Inl e)
        with False item c1 c2 r Inr new show ?thesis by simp
      next
        case (Inr X_stacked)
        with False item c1 c2 r \<open>r1 = Inr new\<close> new
          Cons.IH [of X_stacked "y_res @ y_new" t1 t2]
        show ?thesis by simp
      qed
    qed
  qed
qed

subsection \<open>Regular mode\<close>






subsection \<open>Independence of \<^verbatim>\<open>sparse.vstack\<close>\<close>

lemma sample_ignores_sparse_vstack:
  "make_geometric_sample (E\<lparr>sparse_vstack := f\<rparr>) center radius g =
   make_geometric_sample E center radius g"
proof -
  have "row_size (E\<lparr>sparse_vstack := f\<rparr>) center = row_size E center"
    by (simp add: row_size_def split: row.splits)
  moreover have "\<And>w. row_add (E\<lparr>sparse_vstack := f\<rparr>) center w = row_add E center w"
    by (simp add: row_add_def split: row.splits)
  ultimately show ?thesis
    by (simp add: make_geometric_sample_def Let_def split: prod.splits)
qed

lemma fill_rows_ignores_sparse_vstack:
  "fill_rows (E\<lparr>sparse_vstack := f\<rparr>) X radii items X_new = fill_rows E X radii items X_new"
  by (induction E X radii items X_new rule: fill_rows.induct)
     (simp_all add: sample_ignores_sparse_vstack split: sum.splits)

lemma samples_ignore_sparse_vstack:
  "make_geometric_samples (E\<lparr>sparse_vstack := f\<rparr>) X c radii n g =
   make_geometric_samples E X c radii n g"
  by (auto simp: make_geometric_samples_def fill_rows_ignores_sparse_vstack Let_def
        split: prod.splits)

lemma check_random_state_ignores_sparse_vstack:
  "check_random_state (E\<lparr>sparse_vstack := f\<rparr>) rs st = check_random_state E rs st"
  by (simp add: check_random_state_def split: rs_spec.splits)

lemma kneighbors_ignores_sparse_vstack:
  "kneighbors (E\<lparr>sparse_vstack := f\<rparr>) = kneighbors E"
  by simp

lemma radius_pass_ignores_sparse_vstack:
  "radius_pass (E\<lparr>sparse_vstack := f\<rparr>) self nn X_fit X_pos c n st =
   radius_pass E self nn X_fit X_pos c n st"
  unfolding radius_pass_def samples_ignore_sparse_vstack
    check_random_state_ignores_sparse_vstack kneighbors_ignores_sparse_vstack
  by (rule refl)

lemma class_batch_ignores_sparse_vstack:
  "class_batch (E\<lparr>sparse_vstack := f\<rparr>) self nns X y c n st =
   class_batch E self nns X y c n st"
  unfolding class_batch_def radius_pass_ignores_sparse_vstack
  by (rule refl)

lemma stack_dense_ignores_sparse_vstack:
  "stack_batch (E\<lparr>sparse_vstack := f\<rparr>) X_res (Ndarray B) = stack_batch E X_res (Ndarray B)"
  by (simp add: stack_batch_def issparse_def split: matrix.splits)

lemma sample_loop_ignores_sparse_vstack:
  "sample_loop (E\<lparr>sparse_vstack := f\<rparr>) self nns X y ratio X_res y_res st =
   sample_loop E self nns X y ratio X_res y_res st"
proof (induction ratio arbitrary: X_res y_res st)
  case Nil
  show ?case by simp
next
  case (Cons item ratio)
  obtain c n where item: "item = (c, n)" by (cases item)
  obtain r st1 where cb: "class_batch E self nns X y c n st = (r, st1)"
    by (cases "class_batch E self nns X y c n st")
  have cb': "class_batch (E\<lparr>sparse_vstack := f\<rparr>) self nns X y c n st = (r, st1)"
    using cb by (simp only: class_batch_ignores_sparse_vstack)
  show ?case
  proof (cases "n = 0")
    case True
    with item Cons.IH show ?thesis by simp
  next
    case False
    show ?thesis
    proof (cases r)
      case (Inl e)
      with item cb cb' False show ?thesis by simp
    next
      case (Inr new)
      obtain X_new y_new where new: "new = (X_new, y_new)" by (cases new)
      from cb Inr new have "class_batch E self nns X y c n st = (Inr (X_new, y_new), st1)"
        by simp
      from class_batch_dense [OF this] obtain B where B: "X_new = Ndarray B" by blast
      have sb: "stack_batch (E\<lparr>sparse_vstack := f\<rparr>) X_res X_new = stack_batch E X_res X_new"
        unfolding B by (rule stack_dense_ignores_sparse_vstack)
      show ?thesis
      proof (cases "stack_batch E X_res X_new")
        case (Inl e)
        with item cb cb' False \<open>r = Inr new\<close> new sb show ?thesis by simp
      next
        case (Inr X_stacked)
        with item cb cb' False \<open>r = Inr new\<close> new sb
          Cons.IH [of X_stacked "y_res @ y_new" st1]
        show ?thesis by simp
      qed
    qed
  qed
qed

subsection \<open>Concrete runs\<close>

lemma upt3: "[0..<3] = [0, 1, 2::nat]"
  by code_simp

lemma upt2: "[0..<2] = [0, 1::nat]"
  by code_simp

lemma demo_positive:
  "safe_indexing demo_X (flatnonzero (map (\<lambda>l. l = 1) demo_y)) = Inr (Ndarray [[0]])"
  by (simp add: safe_indexing_def flatnonzero_def demo_X_def demo_y_def upt3 shape0_def
        rows_of_def)

lemma demo_negative:
  "safe_indexing demo_X (flatnonzero (map (\<lambda>l. l \<noteq> 1) demo_y)) =
     Inr (Ndarray [[10], [20]])"
  by (simp add: safe_indexing_def flatnonzero_def demo_X_def demo_y_def upt3 shape0_def
        rows_of_def)

lemma demo_small_batch:
  "make_geometric_samples counter_env (Ndarray [[0]]) (1::int) [[1]] 2 0 =
     (Inr (Ndarray [[Fin (1 / 4)], [Fin (1 / 4)]], [1, 1]), 4)"
proof -
  have s: "sub_states counter_env 0 2 = ([0, 1], 2)"
    by (simp add: counter_env_def upt2)
  have ne: "concat [[1::real]] \<noteq> []" by simp
  have i: "rs_randint counter_env (length (concat [[1::real]])) 2 2 = ([0, 0], 4)"
    by (simp add: counter_env_def upt2)
  have z: "zeros 2 (shape1 (rows_of (Ndarray [[0::real]]))) = [[Fin 0], [Fin 0]]"
    by (simp add: zeros_def rows_of_def shape1_def numeral_eq_Suc)
  have it: "enumerate 0 (zip (decode_rows (shape1 [[1::real]]) [0, 0])
                  (zip (decode_cols (shape1 [[1::real]]) [0, 0]) [0, 1::nat])) =
            [(0, 0, 0, 0), (Suc 0, 0, 0, 1)]"
    by (simp add: decode_rows_def decode_cols_def shape1_def)
  show ?thesis
    unfolding samples_unfold [OF s ne i] it z
    by (simp add: getrow_def getitem2_def counter_sample)
qed


lemma demo_majority_pass:
  "radius_pass counter_env (demo_self k) (Some (Suc 0)) (Ndarray [[10], [20]]) (Ndarray [[0]])
     (1::int) 2 st =
   ((Inr (Ndarray [[Fin (1 / 4)], [Fin (1 / 4)]], [1, 1])),
    st\<lparr>fits := fits st @ [(1, Ndarray [[10], [20]])]\<rparr>)"
proof -
  have kn: "kneighbors counter_env (Suc 0) (Ndarray [[10], [20]]) (Ndarray [[0]]) = Inr [[1]]"
    by (simp add: counter_env_def rows_of_def)
  have g: "\<And>st'. check_random_state counter_env (self_random_state (demo_self k)) st' = 0"
    by (simp add: check_random_state_def demo_self_def counter_env_def)
  have p: "\<And>g st'. put_generator (self_random_state (demo_self k)) g st' = st'"
    by (simp add: put_generator_def demo_self_def)
  show ?thesis
    by (simp add: radius_pass_def Let_def kn g demo_small_batch p)

qed


lemma demo_sample_majority:
  "sample counter_env (demo_self ''majority'') [(1, 2), (0, 0)] demo_X demo_y demo_state =
     (Inr (Ndarray [[Fin 0], [Fin 10], [Fin 20], [Fin (1 / 4)], [Fin (1 / 4)]],
           [1, 0, 0, 1, 1]),
      \<lparr>generator = 7, fits = [(1, Ndarray [[10], [20]])]\<rparr>)"
proof -
  have v: "validate_estimator (demo_self ''majority'') = Inr (None, Some 1)"
    by (simp add: validate_estimator_def demo_self_def GEOMETRIC_SMOTE_KIND_def)
  have kind: "self_kind (demo_self ''majority'') = ''majority''" by (simp add: demo_self_def)
  have cb: "\<And>st. class_batch counter_env (demo_self ''majority'') (None, Some (Suc 0))
                 (Ndarray [[0], [10], [20]]) [1, 0, 0::int] 1 2 st =
          (Inr (Ndarray [[Fin (1 / 4)], [Fin (1 / 4)]], [1, 1]),
           st\<lparr>fits := fits st @ [(1, Ndarray [[10], [20]])]\<rparr>)"
    using demo_positive demo_negative
    by (simp add: class_batch_def kind demo_majority_pass demo_X_def demo_y_def)
  show ?thesis
    by (simp add: sample_def v cb stack_batch_def issparse_def rows_of_def copy_matrix_def
          demo_X_def demo_y_def demo_state_def)
qed


lemma sparse_demo_sample:
  "make_geometric_sample sparse_demo_env (SpRow [x]) r g = Inr [Fin (x + r * (1 / 4))]"
  by (simp add: make_geometric_sample_def sparse_demo_env_def counter_env_def row_size_def
        row_add_def norm2_def Let_def)

lemma sparse_demo_batch:
  "make_geometric_samples sparse_demo_env (Spmatrix [[0]]) (1::int) [[1]] 2 0 =
     (Inr (Ndarray [[Fin (1 / 4)], [Fin (1 / 4)]], [1, 1]), 4)"
proof -
  have s: "sub_states sparse_demo_env 0 2 = ([0, 1], 2)"
    by (simp add: sparse_demo_env_def counter_env_def upt2)
  have ne: "concat [[1::real]] \<noteq> []" by simp
  have i: "rs_randint sparse_demo_env (length (concat [[1::real]])) 2 2 = ([0, 0], 4)"
    by (simp add: sparse_demo_env_def counter_env_def upt2)
  have z: "zeros 2 (shape1 (rows_of (Spmatrix [[0::real]]))) = [[Fin 0], [Fin 0]]"
    by (simp add: zeros_def rows_of_def shape1_def numeral_eq_Suc)
  have it: "enumerate 0 (zip (decode_rows (shape1 [[1::real]]) [0, 0])
                  (zip (decode_cols (shape1 [[1::real]]) [0, 0]) [0, 1::nat])) =
            [(0, 0, 0, 0), (Suc 0, 0, 0, 1)]"
    by (simp add: decode_rows_def decode_cols_def shape1_def)
  show ?thesis
    unfolding samples_unfold [OF s ne i] it z
    by (simp add: getrow_def getitem2_def sparse_demo_sample)
qed

subsection \<open>An unknown kind\<close>

text \<open>
  Claim C7. If \<^verbatim>\<open>kind\<close> is not one of the three names, \<^verbatim>\<open>_sample\<close> ends with the
  \<^verbatim>\<open>ValueError\<close> of \<^verbatim>\<open>_validate_estimator\<close>, whatever the feature matrix, the labels, the
  counts and the parameters are, and leaves the program state as it was; if it is one of the
  three, \<^verbatim>\<open>_validate_estimator\<close> raises nothing.
\<close>

theorem unknown_kind_is_rejected_at_setup:
  "(self_kind self \<notin> set GEOMETRIC_SMOTE_KIND \<longrightarrow>
      sample E self ratio X y st =
        (Inl (ValueError (unknown_kind_msg (self_kind self))), st)) \<and>
   (self_kind self \<in> set GEOMETRIC_SMOTE_KIND \<longrightarrow>
      (\<exists>nns. validate_estimator self = Inr nns))"
  by (simp add: sample_def validate_estimator_def)

theorem unknown_kind_is_rejected_at_setup_witness:
  "sample counter_env \<lparr>self_kind = ''borderline'', self_k_neighbors = 5,
       self_random_state = RS_Seed 0\<rparr> [(1::int, 3)] demo_X [1, 0, 0]
       \<lparr>generator = 0, fits = []\<rparr> =
     (Inl (ValueError (unknown_kind_msg ''borderline'')), \<lparr>generator = 0, fits = []\<rparr>) \<and>
   (\<exists>nns. validate_estimator \<lparr>self_kind = ''majority'', self_k_neighbors = 5,
       self_random_state = RS_Seed 0\<rparr> = Inr nns)"
  using unknown_kind_is_rejected_at_setup
    [of "\<lparr>self_kind = ''borderline'', self_k_neighbors = 5, self_random_state = RS_Seed 0\<rparr>"
        counter_env "[(1::int, 3)]" demo_X "[1, 0, 0]" "\<lparr>generator = 0, fits = []\<rparr>"]
    unknown_kind_is_rejected_at_setup
    [of "\<lparr>self_kind = ''majority'', self_k_neighbors = 5, self_random_state = RS_Seed 0\<rparr>"
        counter_env "[(1::int, 3)]" demo_X "[1, 0, 0]" "\<lparr>generator = 0, fits = []\<rparr>"]
  by (simp add: GEOMETRIC_SMOTE_KIND_def)

subsection \<open>Classes with count zero\<close>

text \<open>
  Claim C6. Classes whose count is 0 have no effect: the pass over the whole dict equals the
  pass over the dict without them, in the data returned, in the exception raised, in the log
  of fits and in the generator. When every count is 0 the pass returns the copy of the input
  and the state it started from, so no fit was made.
\<close>

theorem zero_count_classes_are_skipped:
  "sample E self ratio X y st = sample E self (filter (\<lambda>(c, n). n \<noteq> 0) ratio) X y st \<and>
   (self_kind self \<in> set GEOMETRIC_SMOTE_KIND \<and> (\<forall>(c, n) \<in> set ratio. n = 0) \<longrightarrow>
      sample E self ratio X y st = (Inr (copy_matrix X, y), st))"
proof
  show "sample E self ratio X y st =
        sample E self (filter (\<lambda>(c, n). n \<noteq> 0) ratio) X y st"
    by (simp add: sample_def sample_loop_skip_zero [of E self _ X y ratio] split: sum.splits)
next
  show "self_kind self \<in> set GEOMETRIC_SMOTE_KIND \<and> (\<forall>(c, n) \<in> set ratio. n = 0) \<longrightarrow>
      sample E self ratio X y st = (Inr (copy_matrix X, y), st)"
    by (auto simp: sample_def validate_valid sample_loop_all_zero)
qed

theorem zero_count_classes_are_skipped_witness:
  "sample counter_env (demo_self ''majority'') [(1, 2), (0, 0)] demo_X demo_y demo_state =
     sample counter_env (demo_self ''majority'') [(1, 2)] demo_X demo_y demo_state \<and>
   sample counter_env (demo_self ''majority'') [(1, 0), (0, 0)] demo_X demo_y demo_state =
     (Inr (copy_matrix demo_X, demo_y), demo_state)"
proof -
  note T1 = zero_count_classes_are_skipped
          [where E = counter_env and self = "demo_self ''majority''" and
             ratio = "[(1::int, 2), (0, 0)]" and X = demo_X and y = demo_y and st = demo_state]
  note T2 = zero_count_classes_are_skipped
          [where E = counter_env and self = "demo_self ''majority''" and
             ratio = "[(1::int, 0), (0, 0)]" and X = demo_X and y = demo_y and st = demo_state]
  have a: "sample counter_env (demo_self ''majority'') [(1, 2), (0, 0)] demo_X demo_y
             demo_state =
           sample counter_env (demo_self ''majority'') [(1, 2)] demo_X demo_y demo_state"
    using T1 [THEN conjunct1] by simp
  have k: "self_kind (demo_self ''majority'') \<in> set GEOMETRIC_SMOTE_KIND \<and>
           (\<forall>(c, n) \<in> set [(1::int, 0::nat), (0, 0)]. n = 0)"
    by (simp add: demo_self_def GEOMETRIC_SMOTE_KIND_def)
  have b: "sample counter_env (demo_self ''majority'') [(1, 0), (0, 0)] demo_X demo_y
             demo_state =
           (Inr (copy_matrix demo_X, demo_y), demo_state)"
    using T2 [THEN conjunct2, rule_format, OF k] .
  show ?thesis by (intro conjI; fact)
qed

subsection \<open>The input comes first, unchanged\<close>

text \<open>
  For a numpy feature matrix, a pass that returns gives the input rows followed by the
  batches of the classes, and the input labels followed by the labels of the batches, batch
  after batch in the dict's order; there are as many synthetic rows as synthetic labels. No
  operation of the model writes to \<open>X\<close> or \<open>y\<close>, as none of the source does.
\<close>

lemma sample_loop_appends_batches:
  assumes "sample_loop E self nns X y ratio (Ndarray A) y_res st = (Inr (X_out, y_out), st')"
  shows "X_out = Ndarray (A @ concat (map fst (class_batches E self nns X y ratio st))) \<and>
         y_out = y_res @ concat (map snd (class_batches E self nns X y ratio st))"
  using assms
proof (induction ratio arbitrary: A y_res st)
  case Nil
  then show ?case by simp
next
  case (Cons item ratio)
  obtain c n where item: "item = (c, n)" by (cases item)
  show ?case
  proof (cases "n = 0")
    case True
    with Cons.prems item have "sample_loop E self nns X y ratio (Ndarray A) y_res st =
        (Inr (X_out, y_out), st')" by simp
    from Cons.IH [OF this] True item show ?thesis by simp
  next
    case False
    with Cons.prems item obtain X_new y_new st1 X_stacked where
        cb: "class_batch E self nns X y c n st = (Inr (X_new, y_new), st1)"
        and sb: "stack_batch E (Ndarray A) X_new = Inr X_stacked"
        and rest: "sample_loop E self nns X y ratio X_stacked (y_res @ y_new) st1 =
                     (Inr (X_out, y_out), st')"
      by (auto split: prod.splits sum.splits)
    from class_batch_dense [OF cb] obtain B0 where B0: "X_new = Ndarray B0" by blast
    from sb B0 have st: "X_stacked = Ndarray (A @ B0)"
      by (simp add: stack_batch_def issparse_def rows_of_def)
    from Cons.IH [OF rest [unfolded st]]
    have "X_out = Ndarray ((A @ B0) @ concat (map fst (class_batches E self nns X y ratio st1))) \<and>
          y_out = (y_res @ y_new) @ concat (map snd (class_batches E self nns X y ratio st1))" .
    with False item cb B0 show ?thesis by (simp add: rows_of_def)
  qed
qed

lemma dense_input_rows_come_first:
  assumes "sample E self ratio (Ndarray rs) y st = (Inr (X_resampled, y_resampled), st')"
  shows "\<exists>nns. validate_estimator self = Inr nns \<and>
           X_resampled = Ndarray (map (map Fin) rs @
              concat (map fst (class_batches E self nns (Ndarray rs) y ratio st))) \<and>
           y_resampled = y @ concat (map snd (class_batches E self nns (Ndarray rs) y ratio st))"
proof -
  from assms obtain nns where v: "validate_estimator self = Inr nns" and
    "sample_loop E self nns (Ndarray rs) y ratio (Ndarray (map (map Fin) rs)) y st =
       (Inr (X_resampled, y_resampled), st')"
    by (auto simp: sample_def copy_matrix_def split: sum.splits)
  from sample_loop_appends_batches [OF this(2)] v show ?thesis by blast
qed

lemma dense_input_label_counts:
  assumes ok: "generator_ok E"
      and ret: "sample E self ratio (Ndarray rs) y st = (Inr (X_resampled, y_resampled), st')"
  shows "\<exists>B. X_resampled = Ndarray (map (map Fin) rs @ B) \<and>
             y_resampled = y @ synthetic_labels ratio \<and>
             length B = length (synthetic_labels ratio)"
proof -
  from ret obtain nns where
    "sample_loop E self nns (Ndarray rs) y ratio (Ndarray (map (map Fin) rs)) y st =
       (Inr (X_resampled, y_resampled), st')"
    by (auto simp: sample_def copy_matrix_def split: sum.splits)
  from sample_loop_appends [OF ok this] show ?thesis .
qed

lemma stack_sparse_input:
  assumes "class_batch E self nns X y c n st = (Inr (X_new, y_new), st')"
  shows "stack_batch E (Spmatrix A) X_new = np_vstack_sp E A (rows_of X_new)"
proof -
  from class_batch_dense [OF assms] obtain B where "X_new = Ndarray B" by blast
  then show ?thesis by (simp add: stack_batch_def issparse_def)
qed

lemma csr_sample:
  "make_geometric_sample csr_env (SpRow [a, b]) r g = Inr [Fin a, Fin b]"
  by (simp add: make_geometric_sample_def csr_env_def counter_env_def row_size_def
        row_add_def norm2_def Let_def)

lemma csr_batch:
  "make_geometric_samples csr_env (Spmatrix [[1, 2]]) (1::int) [[1]] 2 0 =
     (Inr (Ndarray [[Fin 1, Fin 2], [Fin 1, Fin 2]], [1, 1]), 4)"
proof -
  have s: "sub_states csr_env 0 2 = ([0, 1], 2)"
    by (simp add: csr_env_def counter_env_def upt2)
  have ne: "concat [[1::real]] \<noteq> []" by simp
  have i: "rs_randint csr_env (length (concat [[1::real]])) 2 2 = ([0, 0], 4)"
    by (simp add: csr_env_def counter_env_def upt2)
  have z: "zeros 2 (shape1 (rows_of (Spmatrix [[1::real, 2]]))) =
             [[Fin 0, Fin 0], [Fin 0, Fin 0]]"
    by (simp add: zeros_def rows_of_def shape1_def numeral_eq_Suc)
  have it: "enumerate 0 (zip (decode_rows (shape1 [[1::real]]) [0, 0])
                  (zip (decode_cols (shape1 [[1::real]]) [0, 0]) [0, 1::nat])) =
            [(0, 0, 0, 0), (Suc 0, 0, 0, 1)]"
    by (simp add: decode_rows_def decode_cols_def shape1_def)
  show ?thesis
    unfolding samples_unfold [OF s ne i] it z
    by (simp add: getrow_def getitem2_def csr_sample)
qed

lemma csr_positive:
  "safe_indexing csr_X (flatnonzero (map (\<lambda>l. l = 1) demo_y)) = Inr (Spmatrix [[1, 2]])"
  by (simp add: safe_indexing_def flatnonzero_def csr_X_def demo_y_def upt3 shape0_def
        rows_of_def)

lemma csr_negative:
  "safe_indexing csr_X (flatnonzero (map (\<lambda>l. l \<noteq> 1) demo_y)) =
     Inr (Spmatrix [[3, 4], [5, 6]])"
  by (simp add: safe_indexing_def flatnonzero_def csr_X_def demo_y_def upt3 shape0_def
        rows_of_def)

lemma csr_majority_pass:
  "radius_pass csr_env (demo_self k) (Some (Suc 0)) (Spmatrix [[3, 4], [5, 6]])
     (Spmatrix [[1, 2]]) (1::int) 2 st =
   ((Inr (Ndarray [[Fin 1, Fin 2], [Fin 1, Fin 2]], [1, 1])),
    st\<lparr>fits := fits st @ [(1, Spmatrix [[3, 4], [5, 6]])]\<rparr>)"
proof -
  have kn: "kneighbors csr_env (Suc 0) (Spmatrix [[3, 4], [5, 6]]) (Spmatrix [[1, 2]]) =
              Inr [[1]]"
    by (simp add: csr_env_def counter_env_def rows_of_def)
  have g: "\<And>st'. check_random_state csr_env (self_random_state (demo_self k)) st' = 0"
    by (simp add: check_random_state_def demo_self_def csr_env_def counter_env_def)
  have p: "\<And>g st'. put_generator (self_random_state (demo_self k)) g st' = st'"
    by (simp add: put_generator_def demo_self_def)
  show ?thesis
    by (simp add: radius_pass_def Let_def kn g csr_batch p)
qed

text \<open>
  Claim C8. The docstring of \<^verbatim>\<open>_sample\<close> accepts a sparse matrix as \<open>X\<close> and promises a
  sparse matrix in return, but for a sparse \<open>X\<close> the pass does not append the batch to the
  copy of the input. The batch is a numpy array whatever \<open>X\<close> is, so line 188 passes the
  sparse copy of \<open>X\<close> and the batch to \<^verbatim>\<open>np.vstack\<close>, which raises \<^verbatim>\<open>ValueError\<close>. Here
  \<open>X\<close> is the CSR matrix \<open>[[1, 2], [3, 4], [5, 6]]\<close> with the labels \<open>[1, 0, 0]\<close>, and two
  samples are asked for class 1 in majority mode: the batch \<open>[[1, 2], [1, 2]]\<close> is
  generated, the nearest-neighbour fit is logged, and the pass ends with the exception
  instead of the five rows.
\<close>

theorem sparse_input_is_stacked_by_numpy:
  "sample csr_env (demo_self ''majority'') [(1, 2)] csr_X demo_y demo_state =
     (Inl (ValueError
        ''all the input array dimensions except for the concatenation axis must match exactly''),
      \<lparr>generator = 7, fits = [(1, Spmatrix [[3, 4], [5, 6]])]\<rparr>)"
proof -
  have v: "validate_estimator (demo_self ''majority'') = Inr (None, Some 1)"
    by (simp add: validate_estimator_def demo_self_def GEOMETRIC_SMOTE_KIND_def)
  have kind: "self_kind (demo_self ''majority'') = ''majority''" by (simp add: demo_self_def)
  have cb: "\<And>st. class_batch csr_env (demo_self ''majority'') (None, Some (Suc 0))
                 (Spmatrix [[1, 2], [3, 4], [5, 6]]) [1, 0, 0::int] 1 2 st =
          (Inr (Ndarray [[Fin 1, Fin 2], [Fin 1, Fin 2]], [1, 1]),
           st\<lparr>fits := fits st @ [(1, Spmatrix [[3, 4], [5, 6]])]\<rparr>)"
    using csr_positive csr_negative
    by (simp add: class_batch_def kind csr_majority_pass csr_X_def demo_y_def)
  have vs: "\<And>A B. np_vstack_sp csr_env A B = Inl (ValueError
      ''all the input array dimensions except for the concatenation axis must match exactly'')"
    by (simp add: csr_env_def)
  show ?thesis
    by (simp add: sample_def v cb stack_batch_def issparse_def rows_of_def copy_matrix_def
          csr_X_def demo_y_def demo_state_def vs)
qed

subsection \<open>Determinism\<close>

text \<open>
  Claim C9. With an int seed as \<^verbatim>\<open>random_state\<close>, the outcome of the pass (the data
  returned, or the exception) is the same from any two program states: it is a function of
  the seed and the inputs.
\<close>

theorem seeded_sample_is_deterministic:
  assumes "self_random_state self = RS_Seed s"
  shows "fst (sample E self ratio X y st1) = fst (sample E self ratio X y st2)"
proof (cases "validate_estimator self")
  case (Inl e)
  then show ?thesis by (simp add: sample_def)
next
  case (Inr nns)
  with sample_loop_seeded [OF assms, of E nns X y ratio "copy_matrix X" y st1 st2]
  show ?thesis by (simp add: sample_def)
qed

theorem seeded_sample_is_deterministic_witness:
  "self_random_state (demo_self ''regular'') = RS_Seed 0 \<and>
   fst (sample counter_env (demo_self ''regular'') [(1, 2), (0, 0)] demo_X demo_y demo_state) =
   fst (sample counter_env (demo_self ''regular'') [(1, 2), (0, 0)] demo_X demo_y
          \<lparr>generator = 99, fits = [(5, demo_X)]\<rparr>)"
proof -
  have s: "self_random_state (demo_self ''regular'') = RS_Seed 0" by (simp add: demo_self_def)
  from seeded_sample_is_deterministic [OF s] s show ?thesis by blast
qed

subsection \<open>Regular mode keeps the majority batch\<close>



subsection \<open>The batch is a numpy array\<close>

text \<open>
  Claim C10. Whatever the feature matrix is, numpy or sparse, a batch that the batch generator
  returns is a numpy array; and the pass does not depend on \<^verbatim>\<open>sparse.vstack\<close>: with any
  other function in its place the pass is the same, so the branch calling it is never taken.
\<close>

theorem batch_is_dense_and_sparse_stack_is_dead:
  "(\<forall>X_new y_new g'.
      make_geometric_samples E X_positive c radii n g = (Inr (X_new, y_new), g') \<longrightarrow>
      \<not> issparse X_new) \<and>
   sample (E\<lparr>sparse_vstack := f\<rparr>) self ratio X y st = sample E self ratio X y st"
proof (rule conjI)
  show "\<forall>X_new y_new g'.
      make_geometric_samples E X_positive c radii n g = (Inr (X_new, y_new), g') \<longrightarrow>
      \<not> issparse X_new"
  proof (intro allI impI)
    fix X_new y_new g'
    assume "make_geometric_samples E X_positive c radii n g = (Inr (X_new, y_new), g')"
    from samples_dense(1) [OF this] obtain B where "X_new = Ndarray B" by blast
    then show "\<not> issparse X_new" by (simp add: issparse_def)
  qed
next
  show "sample (E\<lparr>sparse_vstack := f\<rparr>) self ratio X y st = sample E self ratio X y st"
  proof (cases "validate_estimator self")
    case (Inl e)
    then show ?thesis by (simp add: sample_def)
  next
    case (Inr nns)
    then show ?thesis by (simp add: sample_def sample_loop_ignores_sparse_vstack)
  qed
qed

theorem batch_is_dense_and_sparse_stack_is_dead_witness:
  "make_geometric_samples sparse_demo_env (Spmatrix [[0]]) (1::int) [[1]] 2 0 =
     (Inr (Ndarray [[Fin (1 / 4)], [Fin (1 / 4)]], [1, 1]), 4) \<and>
   \<not> issparse (Ndarray [[Fin (1 / 4)], [Fin (1 / 4)]]) \<and>
   sample (sparse_demo_env\<lparr>sparse_vstack := (\<lambda>A B. Inr A)\<rparr>) (demo_self ''minority'')
       [(1, 2), (0, 0)] (Spmatrix [[0], [10], [20]]) demo_y demo_state =
     sample sparse_demo_env (demo_self ''minority'') [(1, 2), (0, 0)]
       (Spmatrix [[0], [10], [20]]) demo_y demo_state"
proof -
  have b: "make_geometric_samples sparse_demo_env (Spmatrix [[0]]) (1::int) [[1]] 2 0 =
     (Inr (Ndarray [[Fin (1 / 4)], [Fin (1 / 4)]], [1, 1]), 4)"
    by (rule sparse_demo_batch)
  note T = batch_is_dense_and_sparse_stack_is_dead
    [where E = sparse_demo_env and X_positive = "Spmatrix [[0]]" and c = "1::int" and
       radii = "[[1]]" and n = 2 and g = 0 and f = "\<lambda>A B. Inr A" and
       self = "demo_self ''minority''" and ratio = "[(1, 2), (0, 0)]" and
       X = "Spmatrix [[0], [10], [20]]" and y = demo_y and st = demo_state]
  from T [THEN conjunct1, rule_format, OF b]
  have d: "\<not> issparse (Ndarray [[Fin (1 / 4)], [Fin (1 / 4)]])" .
  from T [THEN conjunct2]
  have e: "sample (sparse_demo_env\<lparr>sparse_vstack := (\<lambda>A B. Inr A)\<rparr>) (demo_self ''minority'')
       [(1, 2), (0, 0)] (Spmatrix [[0], [10], [20]]) demo_y demo_state =
     sample sparse_demo_env (demo_self ''minority'') [(1, 2), (0, 0)]
       (Spmatrix [[0], [10], [20]]) demo_y demo_state" .
  show ?thesis by (intro conjI; fact)
qed

end
